theory Spec2Isabelle
  imports Main "HOL-Library.AList"
begin

section \<open>Data model of \<open>src/generator/Generator.ts\<close>\<close>

text \<open>
  A key of a parsed JSON object is either absent (\<open>Missing\<close>, JavaScript's
  \<open>undefined\<close>) or present with a value. \<open>null\<close> is \<open>None\<close> of an option.
\<close>

datatype 'a field = Missing | Present 'a

text \<open>
  \<open>interface GeneratorConfig\<close>. The object comes out of \<open>JSON.parse\<close> and is only cast
  (\<open>as GeneratorConfig\<close>), so every key may be absent at run time.
\<close>

record GeneratorConfig =
  disabled :: "bool field"
  overrides :: "(string \<times> string) list field"
  extractedTypes :: "(string \<times> string) list field"
  description :: "(string \<times> string) list field"
  nameOverride :: "(string \<times> string) list field"
  GKey :: "string field"
  groupKey :: "string option field"

text \<open>
  Errors a run can abort with: \<open>JSON.parse\<close> throws a \<open>SyntaxError\<close> whose message is
  computed from the text it was given; \<open>path.join\<close> throws a \<open>TypeError\<close> on a non-string
  argument; the file system calls throw \<open>ENOENT\<close> (no such file or directory),
  \<open>EISDIR\<close> (a directory where a file is needed) or \<open>ENOTDIR\<close> (a file where a
  directory is needed); the collaborators that are called by \<open>generate\<close> may throw as
  well (\<open>External\<close>).
\<close>

datatype error = SyntaxError string | TypeError | ENOENT | EISDIR | ENOTDIR | External string

text \<open>
  File contents. \<open>Descriptor c\<close> is a file whose text is the JSON of the object \<open>c\<close>
  (what \<open>JSON.stringify(c, null, 2)\<close> writes and \<open>JSON.parse\<close> reads back);
  \<open>Text s\<close> is a file with text \<open>s\<close> on which \<open>JSON.parse\<close> throws. The domain is the
  typed view that the cast of \<open>loadConfig\<close> takes (\<open>configMap\<close> is declared a map to
  \<open>GeneratorConfig\<close>): a JSON text that is valid but is not an object, such as \<open>null\<close>,
  or whose fields have other types than the interface gives them, has no value here.
  The code stores such a value in the map without an error and fails, if at all, at a
  later property read.
\<close>

datatype content = Descriptor GeneratorConfig | Text string

datatype node = Dir | File content

text \<open>
  A path in the normal form that \<open>path.join\<close> returns: whether it is absolute, and its
  segments, without empty and \<open>.\<close> segments and with \<open>..\<close> resolved.
\<close>

datatype path = Path bool "string list"

fun absolute :: "path \<Rightarrow> bool" where
  "absolute (Path a segs) = a"

fun segments :: "path \<Rightarrow> string list" where
  "segments (Path a segs) = segs"

text \<open>
  The file system: the entries by path, in the order in which the operating system lists
  a directory, and the log of the calls of \<open>writeFileSync\<close> that succeeded, oldest first.
  The root and the working directory (no segments) exist always; a relative path is
  not resolved against the working directory. The platform does not say where a new
  entry appears in a listing; here it is appended, and the statements about arbitrary
  file systems below speak of the set of the listed names or take the order of the map
  as a hypothesis.
\<close>

record filesystem =
  entries :: "(path \<times> node) list"
  writes :: "(path \<times> content) list"

text \<open>\<open>class Generator\<close>: \<open>configMap\<close> is a JavaScript \<open>Map\<close>, iterated in insertion order.\<close>

record Generator =
  configMap :: "(string \<times> GeneratorConfig) list"
  targetDir :: string
  configDir :: "string option"

subsection \<open>Node primitives\<close>

text \<open>Splitting a string at the separator \<open>/\<close>.\<close>

fun split_slash :: "string \<Rightarrow> string list" where
  "split_slash [] = [[]]"
| "split_slash (c # cs) =
     (if c = CHR ''/'' then [] # split_slash cs
      else (case split_slash cs of [] \<Rightarrow> [[c]] | s # ss \<Rightarrow> (c # s) # ss))"

text \<open>
  One step of the normalisation of \<open>path.join\<close>: empty and \<open>.\<close> segments are dropped;
  \<open>..\<close> removes the segment before it, is dropped at the root, and is kept at the start
  of a relative path; any other segment is appended.
\<close>

definition push_segment :: "bool \<Rightarrow> string list \<Rightarrow> string \<Rightarrow> string list" where
  "push_segment a segs s =
     (if s = [] \<or> s = ''.'' then segs
      else if s = ''..'' then
        (if segs = [] then (if a then [] else [''..''])
         else if last segs = ''..'' then segs @ [''..'']
         else butlast segs)
      else segs @ [s])"

text \<open>
  \<open>path.join(s)\<close> of one string; for the empty string it is the working directory, as
  for \<open>.\<close>, and a further argument is joined to it as to \<open>.\<close> (the code never joins an
  absolute string to an empty first argument).
\<close>

definition path_of :: "string \<Rightarrow> path" where
  "path_of s = Path (take 1 s = ''/'') (fold (\<lambda>x segs. push_segment (take 1 s = ''/'') segs x)
                                          (split_slash s) [])"

text \<open>
  \<open>path.join(p, s)\<close> for a path \<open>p\<close> that \<open>path.join\<close> returned (or a non-empty string in
  normal form) and a further string \<open>s\<close>: the segments of \<open>s\<close> are pushed on those of \<open>p\<close>.
\<close>

definition path_join :: "path \<Rightarrow> string \<Rightarrow> path" where
  "path_join p s =
     Path (absolute p) (fold (\<lambda>x segs. push_segment (absolute p) segs x) (split_slash s)
                          (segments p))"

definition parent :: "path \<Rightarrow> path" where
  "parent p = Path (absolute p) (butlast (segments p))"

text \<open>What a path names in the file system.\<close>

definition node_at :: "filesystem \<Rightarrow> path \<Rightarrow> node option" where
  "node_at fs p = (if segments p = [] then Some Dir else map_of (entries fs) p)"

text \<open>A file or directory name: not empty, not \<open>.\<close> or \<open>..\<close>, without separator.\<close>

definition plain_name :: "string \<Rightarrow> bool" where
  "plain_name n = (n \<noteq> [] \<and> n \<noteq> ''.'' \<and> n \<noteq> ''..'' \<and> CHR ''/'' \<notin> set n)"

text \<open>
  \<open>path.extname(file) === ".json"\<close> on a name: the name ends in \<open>.json\<close> and is longer
  than that (\<open>path.extname(".json")\<close> is the empty string).
\<close>

definition is_json_file :: "string \<Rightarrow> bool" where
  "is_json_file f = (5 < length f \<and> drop (length f - 5) f = ''.json'')"

text \<open>\<open>path.basename(file, ".json")\<close> on such a name.\<close>

definition basename_json :: "string \<Rightarrow> string" where
  "basename_json f = take (length f - 5) f"

text \<open>
  \<open>readdirSync(dir)\<close>: the names of the files and directories directly inside \<open>dir\<close>.
  It throws on the empty string, on a missing directory and on a file.
\<close>

definition readdirSync :: "string \<Rightarrow> filesystem \<Rightarrow> error + string list" where
  "readdirSync d fs =
     (if d = [] then Inl ENOENT
      else case node_at fs (path_of d) of
        None \<Rightarrow> Inl ENOENT
      | Some (File c) \<Rightarrow> Inl ENOTDIR
      | Some Dir \<Rightarrow>
          Inr (remdups [last (segments p). (p, n) \<leftarrow> entries fs,
                        segments p \<noteq> [], parent p = path_of d,
                        plain_name (last (segments p))]))"

definition readFileSync :: "path \<Rightarrow> filesystem \<Rightarrow> error + content" where
  "readFileSync p fs =
     (case node_at fs p of
        None \<Rightarrow> Inl ENOENT
      | Some Dir \<Rightarrow> Inl EISDIR
      | Some (File c) \<Rightarrow> Inr c)"

text \<open>
  \<open>writeFileSync(p, c)\<close> replaces the file or creates it inside an existing directory,
  and is logged. It throws when \<open>p\<close> names a directory and when the directory that is to
  hold the file is missing or is a file.
\<close>

definition writeFileSync :: "path \<Rightarrow> content \<Rightarrow> filesystem \<Rightarrow> error + filesystem" where
  "writeFileSync p c fs =
     (if segments p = [] \<or> last (segments p) = ''..'' then Inl EISDIR
      else case node_at fs (parent p) of
        None \<Rightarrow> Inl ENOENT
      | Some (File x) \<Rightarrow> Inl ENOTDIR
      | Some Dir \<Rightarrow>
          (case node_at fs p of
             Some Dir \<Rightarrow> Inl EISDIR
           | _ \<Rightarrow> Inr (fs\<lparr>entries := AList.update p (File c) (entries fs),
                          writes := writes fs @ [(p, c)]\<rparr>)))"

text \<open>The directories along a path, created where they are missing.\<close>

fun mkdirs :: "bool \<Rightarrow> string list \<Rightarrow> string list \<Rightarrow> filesystem \<Rightarrow> error + filesystem" where
  "mkdirs a done [] fs = Inr fs"
| "mkdirs a done (s # rest) fs =
     (case map_of (entries fs) (Path a (done @ [s])) of
        Some (File c) \<Rightarrow> Inl ENOTDIR
      | Some Dir \<Rightarrow> mkdirs a (done @ [s]) rest fs
      | None \<Rightarrow>
          mkdirs a (done @ [s]) rest
            (fs\<lparr>entries := entries fs @ [(Path a (done @ [s]), Dir)]\<rparr>))"

text \<open>
  Modelled from the spec: \<open>helpers/ensureDirectory\<close> is not under \<open>src/\<close>; it is one of
  the "filesystem scaffolding helpers" and makes sure that the directory exists, creating
  it together with its missing ancestors.
\<close>

definition ensureDirectory :: "path \<Rightarrow> filesystem \<Rightarrow> error + filesystem" where
  "ensureDirectory p fs = mkdirs (absolute p) [] (segments p) fs"

text \<open>
  The constructor: \<open>ensureDirectory(targetDir)\<close>, then the new object, whose
  \<open>configMap\<close> is empty and whose \<open>configDir\<close> is not set.
\<close>

definition initial_Generator :: "string \<Rightarrow> Generator" where
  "initial_Generator dir = \<lparr>configMap = [], targetDir = dir, configDir = None\<rparr>"

definition constructor :: "string \<Rightarrow> filesystem \<Rightarrow> error + Generator \<times> filesystem" where
  "constructor dir fs =
     (case ensureDirectory (path_of dir) fs of
        Inl e \<Rightarrow> Inl e
      | Inr fs1 \<Rightarrow> Inr (initial_Generator dir, fs1))"

text \<open>\<open>Map.prototype.set\<close>: an existing key keeps its position.\<close>

definition map_set :: "string \<Rightarrow> 'v \<Rightarrow> (string \<times> 'v) list \<Rightarrow> (string \<times> 'v) list" where
  "map_set k v m = AList.update k v m"

text \<open>\<open>JSON.parse(readFileSync(p, "utf-8"))\<close>.\<close>

definition parse_descriptor :: "path \<Rightarrow> filesystem \<Rightarrow> error + GeneratorConfig" where
  "parse_descriptor p fs =
     (case readFileSync p fs of
        Inl e \<Rightarrow> Inl e
      | Inr (Text s) \<Rightarrow> Inl (SyntaxError s)
      | Inr (Descriptor c) \<Rightarrow> Inr c)"

subsection \<open>\<open>loadConfig\<close>\<close>

text \<open>
  The loop over \<open>configFiles\<close>. A throw leaves the entries set so far in the map;
  the result is the generator together with the error, if any.
\<close>

fun loadConfig_loop ::
  "string \<Rightarrow> filesystem \<Rightarrow> string list \<Rightarrow> Generator \<Rightarrow> Generator \<times> error option" where
  "loadConfig_loop d fs [] g = (g, None)"
| "loadConfig_loop d fs (configFile # rest) g =
     (case parse_descriptor (path_join (path_of d) configFile) fs of
        Inl e \<Rightarrow> (g, Some e)
      | Inr config \<Rightarrow>
          loadConfig_loop d fs rest
            (g\<lparr>configMap := map_set (basename_json configFile) config (configMap g)\<rparr>))"

definition loadConfig :: "string \<Rightarrow> filesystem \<Rightarrow> Generator \<Rightarrow> Generator \<times> error option" where
  "loadConfig d fs g =
     (case readdirSync d fs of
        Inl e \<Rightarrow> (g\<lparr>configDir := Some d\<rparr>, Some e)
      | Inr names \<Rightarrow>
          loadConfig_loop d fs (filter is_json_file names) (g\<lparr>configDir := Some d\<rparr>))"

subsection \<open>\<open>generateDefaultConfigs\<close>\<close>

definition defaultConfig :: "string \<Rightarrow> GeneratorConfig" where
  "defaultConfig k =
     \<lparr>disabled = Present True, overrides = Present [], extractedTypes = Present [],
      description = Present [], nameOverride = Present [], GKey = Present k,
      groupKey = Present None\<rparr>"

text \<open>The inner loop: some config of the map has \<open>config.GKey === GKey\<close>.\<close>

definition declared :: "Generator \<Rightarrow> string \<Rightarrow> bool" where
  "declared g k = list_ex (\<lambda>config. GKey config = Present k) (map snd (configMap g))"

text \<open>\<open>if (this.configDir)\<close>: set, and not the empty string.\<close>

definition configDir_truthy :: "Generator \<Rightarrow> string option" where
  "configDir_truthy g =
     (case configDir g of None \<Rightarrow> None | Some d \<Rightarrow> if d = [] then None else Some d)"

text \<open>
  One round of the outer loop, for the key \<open>k\<close> of \<open>Object.keys(data)\<close>: the file
  system after it, and the error if \<open>writeFileSync\<close> threw.
\<close>

definition generateDefaultConfig ::
  "Generator \<Rightarrow> string \<Rightarrow> filesystem \<Rightarrow> filesystem \<times> error option" where
  "generateDefaultConfig g k fs =
     (if k = ''version'' then (fs, None)
      else if declared g k then (fs, None)
      else (case configDir_truthy g of
              None \<Rightarrow> (fs, None)
            | Some d \<Rightarrow>
                (case writeFileSync (path_join (path_of d) (k @ ''.json''))
                        (Descriptor (defaultConfig k)) fs of
                   Inl e \<Rightarrow> (fs, Some e)
                 | Inr fs1 \<Rightarrow> (fs1, None))))"

text \<open>
  \<open>RawData\<close> is an object; it is kept as the list of its entries in the order of
  \<open>Object.keys\<close>. The values are not inspected by the generator.
\<close>

type_synonym 'v RawData = "(string \<times> 'v) list"

fun generateDefaultConfigs_loop ::
  "Generator \<Rightarrow> string list \<Rightarrow> filesystem \<Rightarrow> filesystem \<times> error option" where
  "generateDefaultConfigs_loop g [] fs = (fs, None)"
| "generateDefaultConfigs_loop g (k # ks) fs =
     (case generateDefaultConfig g k fs of
        (fs1, Some e) \<Rightarrow> (fs1, Some e)
      | (fs1, None) \<Rightarrow> generateDefaultConfigs_loop g ks fs1)"

definition generateDefaultConfigs ::
  "Generator \<Rightarrow> 'v RawData \<Rightarrow> filesystem \<Rightarrow> filesystem \<times> error option" where
  "generateDefaultConfigs g data fs = generateDefaultConfigs_loop g (map fst data) fs"

subsection \<open>\<open>generate\<close>\<close>

text \<open>
  Of an analysis result, \<open>generate\<close> reads the field \<open>category\<close> only; the other fields
  are the record's extension.
\<close>

record AnalysisResult =
  category :: string

type_synonym 'v Grouped = "(string \<times> 'v option) list"

text \<open>
  The collaborators that \<open>generate\<close> calls and that are not part of the generator:
  \<open>helpers/groupBy\<close>, \<open>analysis\<close>, \<open>generateTs\<close>, \<open>helpers/capitalize\<close>,
  \<open>prettier.format\<close> and \<open>JSON.stringify\<close> of the two debug snapshots. Those that may
  throw return a sum. A category that the dataset lacks is \<open>None\<close> (\<open>data[GKey]\<close> is
  \<open>undefined\<close>).
\<close>

record ('v, 'z) collaborators =
  groupBy :: "'v option \<Rightarrow> string \<Rightarrow> error + 'v Grouped"
  analyseAll :: "'v Grouped \<Rightarrow> GeneratorConfig \<Rightarrow> error + 'z AnalysisResult_scheme list"
  generateTypes ::
    "'z AnalysisResult_scheme \<Rightarrow> string option field \<Rightarrow> GeneratorConfig \<Rightarrow> error + string"
  capitalize :: "string \<Rightarrow> string"
  format :: "string \<Rightarrow> error + string"
  stringify_grouped :: "'v Grouped \<Rightarrow> string"
  stringify_analysis :: "'z AnalysisResult_scheme \<Rightarrow> string"

text \<open>
  Modelled from the spec: \<open>helpers/capitalize\<close> is not under \<open>src/\<close>; names are
  "capitalized" into identifiers, that is, a leading lower-case letter is replaced by its
  upper-case letter.
\<close>

definition toUpperCase :: "char \<Rightarrow> char" where
  "toUpperCase c =
     (if 97 \<le> (of_char c :: nat) \<and> (of_char c :: nat) \<le> 122
      then char_of ((of_char c :: nat) - 32) else c)"

fun capitalize_first :: "string \<Rightarrow> string" where
  "capitalize_first [] = []"
| "capitalize_first (c # cs) = toUpperCase c # cs"

text \<open>The line feed and the single quote of the template literals.\<close>

definition nl :: string where
  "nl = [CHR 0x0A]"

definition sq :: string where
  "sq = [CHR 0x27]"

text \<open>\<open>Array.prototype.join\<close>.\<close>

fun join :: "string \<Rightarrow> string list \<Rightarrow> string" where
  "join sep [] = []"
| "join sep [x] = x"
| "join sep (x # y # ys) = x @ sep @ join sep (y # ys)"

definition disabled_truthy :: "GeneratorConfig \<Rightarrow> bool" where
  "disabled_truthy config = (disabled config = Present True)"

text \<open>\<open>groupKey ? \<dots> : \<dots>\<close>: a string that is not empty.\<close>

definition groupKey_truthy :: "GeneratorConfig \<Rightarrow> string option" where
  "groupKey_truthy config =
     (case groupKey config of
        Present (Some k) \<Rightarrow> if k = [] then None else Some k
      | _ \<Rightarrow> None)"

text \<open>Line 106: the grouping step for the category \<open>k\<close>.\<close>

definition grouping ::
  "('v, 'z) collaborators \<Rightarrow> 'v RawData \<Rightarrow> GeneratorConfig \<Rightarrow> string \<Rightarrow> error + 'v Grouped" where
  "grouping env data config k =
     (case groupKey_truthy config of
        Some gk \<Rightarrow> groupBy env (map_of data k) gk
      | None \<Rightarrow> Inr [(k, map_of data k)])"

text \<open>
  Lines 114 to 124: the loop that writes one snapshot and one module per result. The
  arguments of a call are evaluated first, so a throw of \<open>generateTypes\<close> or of the
  formatter leaves the module unwritten.
\<close>

fun write_modules ::
  "('v, 'z) collaborators \<Rightarrow> GeneratorConfig \<Rightarrow> string \<Rightarrow> path \<Rightarrow> path \<Rightarrow>
   'z AnalysisResult_scheme list \<Rightarrow> filesystem \<Rightarrow> filesystem \<times> error option" where
  "write_modules env config k outDir tmpDir [] fs = (fs, None)"
| "write_modules env config k outDir tmpDir (val # rest) fs =
     (case writeFileSync (path_join tmpDir (k @ ''/'' @ category val @ ''_analysis.json''))
             (Text (stringify_analysis env val)) fs of
        Inl e \<Rightarrow> (fs, Some e)
      | Inr fs1 \<Rightarrow>
          (case generateTypes env val (groupKey config) config of
             Inl e \<Rightarrow> (fs1, Some e)
           | Inr source \<Rightarrow>
               (case format env source of
                  Inl e \<Rightarrow> (fs1, Some e)
                | Inr formatted \<Rightarrow>
                    (case writeFileSync (path_join outDir (category val @ ''.ts''))
                            (Text formatted) fs1 of
                       Inl e \<Rightarrow> (fs1, Some e)
                     | Inr fs2 \<Rightarrow> write_modules env config k outDir tmpDir rest fs2))))"

text \<open>Line 127: the re-exports of the per-category index.\<close>

definition index_exports :: "'z AnalysisResult_scheme list \<Rightarrow> string list" where
  "index_exports analysis =
     map (\<lambda>val. ''export * from '' @ sq @ ''./'' @ category val @ sq @ '';'') analysis"

text \<open>Lines 134 to 139: the imports of the per-category index of a grouped category.\<close>

definition index_imports :: "'z AnalysisResult_scheme list \<Rightarrow> string list" where
  "index_imports analysis =
     map (\<lambda>val. ''import type { '' @ category val @ ''Key, G'' @ category val @ '' } from ''
                 @ sq @ ''./'' @ category val @ sq @ '';'') analysis"

text \<open>Lines 150 to 152: the category-level key union.\<close>

definition index_key_union ::
  "('v, 'z) collaborators \<Rightarrow> string \<Rightarrow> 'z AnalysisResult_scheme list \<Rightarrow> string list" where
  "index_key_union env k analysis =
     [nl @ ''export type '' @ capitalize env k @ ''Key =''] @
     map (\<lambda>val. ''| '' @ category val @ ''Key'') analysis @
     ['';'']"

text \<open>The lines of the per-category index, as they stand at line 169.\<close>

definition category_index ::
  "('v, 'z) collaborators \<Rightarrow> GeneratorConfig \<Rightarrow> string \<Rightarrow> 'z AnalysisResult_scheme list \<Rightarrow>
   string list" where
  "category_index env config k analysis =
     (case groupKey_truthy config of
        Some gk \<Rightarrow>
          index_exports analysis @ [''''] @ index_imports analysis @ index_key_union env k analysis
      | None \<Rightarrow> index_exports analysis)"

text \<open>Lines 142 to 147 and 161 to 164: what the category pushes on \<open>gTypesIndex\<close>.\<close>

definition gTypesIndex_lines ::
  "('v, 'z) collaborators \<Rightarrow> GeneratorConfig \<Rightarrow> string \<Rightarrow> 'z AnalysisResult_scheme list \<Rightarrow>
   string list" where
  "gTypesIndex_lines env config k analysis =
     (case groupKey_truthy config of
        Some gk \<Rightarrow>
          [''import type { '',
           capitalize env k @ ''Key,'',
           join '','' (map (\<lambda>val. ''G'' @ category val) analysis),
           ''} from '' @ sq @ ''./'' @ k @ sq @ '';'']
      | None \<Rightarrow>
          [''import type { '' @ capitalize env k @ ''Key, '' @ (''G'' @ capitalize env k)
           @ '' } from '' @ sq @ ''./'' @ k @ sq @ '';''])"

text \<open>Lines 155 to 158 and 166: what the category pushes on \<open>gDataType\<close>.\<close>

definition gDataType_lines ::
  "('v, 'z) collaborators \<Rightarrow> GeneratorConfig \<Rightarrow> string \<Rightarrow> 'z AnalysisResult_scheme list \<Rightarrow>
   string list" where
  "gDataType_lines env config k analysis =
     (case groupKey_truthy config of
        Some gk \<Rightarrow>
          [k @ '': {[T in '' @ capitalize env k @ ''Key]: ''] @
          map (\<lambda>val. ''| G'' @ capitalize env (category val)) analysis @
          [''};'']
      | None \<Rightarrow>
          [k @ '': {[T in '' @ capitalize env k @ ''Key]: '' @ (''G'' @ capitalize env k) @ ''};''])"

text \<open>The state of the loop of \<open>generate\<close>: the two accumulators and the file system.\<close>

record gen_state =
  gTypesIndex :: "string list"
  gDataType :: "string list"
  fsys :: filesystem

text \<open>
  Lines 109 to 112: the two directories and the snapshot of the grouped input.
\<close>

definition prepare_directories ::
  "('v, 'z) collaborators \<Rightarrow> string \<Rightarrow> path \<Rightarrow> path \<Rightarrow> 'v Grouped \<Rightarrow> filesystem \<Rightarrow>
   error + filesystem" where
  "prepare_directories env k outDir tmpDir grouped fs =
     (case ensureDirectory outDir fs of
        Inl e \<Rightarrow> Inl e
      | Inr fs1 \<Rightarrow>
          (case ensureDirectory (path_join tmpDir k) fs1 of
             Inl e \<Rightarrow> Inl e
           | Inr fs2 \<Rightarrow>
               writeFileSync (path_join (path_join tmpDir k) ''grouped.json'')
                 (Text (stringify_grouped env grouped)) fs2))"

text \<open>
  One round of the loop over \<open>configMap.values()\<close> (lines 100 to 172). A throw ends the
  run with the files written so far.
\<close>

definition generate_config ::
  "('v, 'z) collaborators \<Rightarrow> string \<Rightarrow> path \<Rightarrow> 'v RawData \<Rightarrow> GeneratorConfig \<Rightarrow>
   gen_state \<Rightarrow> gen_state \<times> error option" where
  "generate_config env target tmpDir data config st =
     (if disabled_truthy config then (st, None)
      else case GKey config of
        Missing \<Rightarrow> (st, Some TypeError)
      | Present k \<Rightarrow>
          (let outDir = path_join (path_join (path_of target) ''GTypes'') k in
           case grouping env data config k of
             Inl e \<Rightarrow> (st, Some e)
           | Inr grouped \<Rightarrow>
               (case analyseAll env grouped config of
                  Inl e \<Rightarrow> (st, Some e)
                | Inr analysis \<Rightarrow>
                    (case prepare_directories env k outDir tmpDir grouped (fsys st) of
                       Inl e \<Rightarrow> (st, Some e)
                     | Inr fs1 \<Rightarrow>
                         (case write_modules env config k outDir tmpDir analysis fs1 of
                            (fs2, Some e) \<Rightarrow> (st\<lparr>fsys := fs2\<rparr>, Some e)
                          | (fs2, None) \<Rightarrow>
                              (let st1 = st\<lparr>gTypesIndex :=
                                   gTypesIndex st @ gTypesIndex_lines env config k analysis,
                                 gDataType :=
                                   gDataType st @ gDataType_lines env config k analysis,
                                 fsys := fs2\<rparr>
                               in case format env
                                    (join nl (category_index env config k analysis) @ '';'') of
                                    Inl e \<Rightarrow> (st1, Some e)
                                  | Inr formatted \<Rightarrow>
                                      (case writeFileSync (path_join outDir ''index.ts'')
                                              (Text formatted) fs2 of
                                         Inl e \<Rightarrow> (st1, Some e)
                                       | Inr fs3 \<Rightarrow> (st1\<lparr>fsys := fs3\<rparr>, None))))))))"

fun generate_loop ::
  "('v, 'z) collaborators \<Rightarrow> string \<Rightarrow> path \<Rightarrow> 'v RawData \<Rightarrow> GeneratorConfig list \<Rightarrow>
   gen_state \<Rightarrow> gen_state \<times> error option" where
  "generate_loop env target tmpDir data [] st = (st, None)"
| "generate_loop env target tmpDir data (config # rest) st =
     (case generate_config env target tmpDir data config st of
        (st1, Some e) \<Rightarrow> (st1, Some e)
      | (st1, None) \<Rightarrow> generate_loop env target tmpDir data rest st1)"

text \<open>
  \<open>generate\<close>, given the dataset that \<open>getGData\<close> resolved to and the directory
  \<open>tmpDir\<close>. The result is the file system at the end of the run and the error that
  ended it, if any.
\<close>

definition generate ::
  "('v, 'z) collaborators \<Rightarrow> Generator \<Rightarrow> 'v RawData \<Rightarrow> path \<Rightarrow> filesystem \<Rightarrow>
   filesystem \<times> error option" where
  "generate env g data tmpDir fs =
     (case generateDefaultConfigs g data fs of
        (fs0, Some e) \<Rightarrow> (fs0, Some e)
      | (fs0, None) \<Rightarrow>
          (case generate_loop env (targetDir g) tmpDir data (map snd (configMap g))
                  \<lparr>gTypesIndex = [], gDataType = [nl @ ''export type GData = {''],
                    fsys = fs0\<rparr> of
             (st, Some e) \<Rightarrow> (fsys st, Some e)
           | (st, None) \<Rightarrow>
               (case format env
                       (join nl (gTypesIndex st @ [join nl (gDataType st @ [''}''])])) of
                  Inl e \<Rightarrow> (fsys st, Some e)
                | Inr formatted \<Rightarrow>
                    (case writeFileSync
                            (path_join (path_join (path_of (targetDir g)) ''GTypes'') ''index.ts'')
                            (Text formatted) (fsys st) of
                       Inl e \<Rightarrow> (fsys st, Some e)
                     | Inr fs1 \<Rightarrow> (fs1, None)))))"

subsection \<open>Collaborators for concrete runs\<close>

type_synonym sample_record = "(string \<times> string) list"

fun group_insert ::
  "string \<Rightarrow> sample_record \<Rightarrow> (string \<times> sample_record list) list \<Rightarrow>
   (string \<times> sample_record list) list" where
  "group_insert v r [] = [(v, [r])]"
| "group_insert v r ((v', rs) # gs) =
     (if v = v' then (v', rs @ [r]) # gs else (v', rs) # group_insert v r gs)"

fun groupBy_records ::
  "sample_record list \<Rightarrow> string \<Rightarrow> (string \<times> sample_record list) list \<Rightarrow>
   error + (string \<times> sample_record list) list" where
  "groupBy_records [] gk acc = Inr acc"
| "groupBy_records (r # rs) gk acc =
     (case map_of r gk of
        None \<Rightarrow> Inl (External ''groupBy'')
      | Some v \<Rightarrow> groupBy_records rs gk (group_insert v r acc))"

text \<open>
  Modelled from the spec: \<open>helpers/groupBy\<close> is not under \<open>src/\<close>. It "partitions records
  by the value found at \<open>groupKey\<close> in each record"; a record without the field is an
  error; the groups are in first-seen order and keep the records' relative order.
\<close>

definition groupBy_spec ::
  "sample_record list option \<Rightarrow> string \<Rightarrow> error + sample_record list Grouped" where
  "groupBy_spec records gk =
     (case records of
        None \<Rightarrow> Inl (External ''groupBy'')
      | Some rs \<Rightarrow>
          (case groupBy_records rs gk [] of
             Inl e \<Rightarrow> Inl e
           | Inr gs \<Rightarrow> Inr (map (\<lambda>(v, rs). (v, Some rs)) gs)))"

text \<open>
  Modelled from the spec: \<open>analysis\<close> is not under \<open>src/\<close>. Of an analysis result only
  the name matters here: it is the "group name, possibly renamed via \<open>nameOverride\<close>".
\<close>

definition renamed :: "GeneratorConfig \<Rightarrow> string \<Rightarrow> string" where
  "renamed config name =
     (case nameOverride config of
        Missing \<Rightarrow> name
      | Present m \<Rightarrow> (case map_of m name of None \<Rightarrow> name | Some n \<Rightarrow> n))"

text \<open>
  The collaborators of the concrete runs: the grouping and the naming above, one
  analysis result per group, a module text that only names the group, and a formatter
  that returns its input.
\<close>

definition sample_collaborators :: "(sample_record list, unit) collaborators" where
  "sample_collaborators =
     \<lparr>groupBy = groupBy_spec,
      analyseAll = (\<lambda>grouped config.
         Inr (map (\<lambda>(name, rs). \<lparr>category = renamed config name\<rparr>) grouped)),
      generateTypes = (\<lambda>val gk config. Inr (''// '' @ category val)),
      capitalize = capitalize_first,
      format = Inr,
      stringify_grouped = (\<lambda>grouped. ''grouped''),
      stringify_analysis = (\<lambda>val. ''analysis'')\<rparr>"

text \<open>The dataset and the config of the end-to-end example.\<close>

definition sample_data :: "sample_record list RawData" where
  "sample_data =
     [(''items'', [[(''id'', ''a''), (''type'', ''weapon'')],
                  [(''id'', ''b''), (''type'', ''shield'')]])]"

definition sample_config :: "string option \<Rightarrow> GeneratorConfig" where
  "sample_config gk =
     \<lparr>disabled = Present False, overrides = Present [], extractedTypes = Present [],
      description = Present [], nameOverride = Present [], GKey = Present ''items'',
      groupKey = Present gk\<rparr>"

definition empty_fs :: filesystem where
  "empty_fs = \<lparr>entries = [], writes = []\<rparr>"

text \<open>The directory \<open>tmp\<close> next to the sources, as \<open>path.resolve\<close> returns it.\<close>

definition sample_tmp :: path where
  "sample_tmp = Path True [''repo'', ''tmp'']"

text \<open>
  The file system of the concrete runs of \<open>generate\<close>: the output and the scratch
  directories exist already, so that \<open>ensureDirectory\<close> has nothing to create.
\<close>

definition sample_fs :: filesystem where
  "sample_fs =
     \<lparr>entries = map (\<lambda>p. (p, Dir))
        [path_of ''out'', path_of ''out/GTypes'', path_of ''out/GTypes/items'',
         path_of ''out/GTypes/Items'', Path True [''repo''], sample_tmp,
         path_join sample_tmp ''items'', path_join sample_tmp ''Items''],
      writes = []\<rparr>"

definition sample_state :: gen_state where
  "sample_state = \<lparr>gTypesIndex = [], gDataType = [], fsys = sample_fs\<rparr>"

text \<open>
  Reading aid for the aggregate type. A grouped category pushes on \<open>gDataType\<close> the lines
  of a mapped type \<open>k: {[T in K]: | A1 | A2 \<dots>};\<close>. The alternatives stand between the
  opening and the closing line and do not mention the type variable \<open>T\<close>, so the shapes
  the mapped type allows at a key \<open>t\<close> are the same for every \<open>t\<close>.
\<close>

definition gData_shape_at :: "string list \<Rightarrow> string \<Rightarrow> string list" where
  "gData_shape_at lines t = map (drop 2) (butlast (tl lines))"



text \<open>
  Reading aids for a run of \<open>generate\<close>: the \<open>GKey\<close> of a config, and the analysis
  that the round of the config computes (lines 106 and 107) when neither collaborator
  throws.
\<close>

definition GKey_of :: "GeneratorConfig \<Rightarrow> string" where
  "GKey_of config = (case GKey config of Missing \<Rightarrow> [] | Present k \<Rightarrow> k)"

definition analysis_of ::
  "('v, 'z) collaborators \<Rightarrow> 'v RawData \<Rightarrow> GeneratorConfig \<Rightarrow> 'z AnalysisResult_scheme list" where
  "analysis_of env data config =
     (case grouping env data config (GKey_of config) of
        Inl e \<Rightarrow> []
      | Inr grouped \<Rightarrow>
          (case analyseAll env grouped config of Inl e \<Rightarrow> [] | Inr analysis \<Rightarrow> analysis))"

text \<open>The directory of a category and the two index files, as \<open>generate\<close> joins them.\<close>

definition outDir_of :: "string \<Rightarrow> string \<Rightarrow> path" where
  "outDir_of target k = path_join (path_join (path_of target) ''GTypes'') k"

definition category_index_path :: "string \<Rightarrow> string \<Rightarrow> path" where
  "category_index_path target k = path_join (outDir_of target k) ''index.ts''"

definition global_index_path :: "string \<Rightarrow> path" where
  "global_index_path target = path_join (path_join (path_of target) ''GTypes'') ''index.ts''"

section \<open>Paths and the file system\<close>

lemma path_collapse: "Path (absolute p) (segments p) = p"
  by (cases p) simp

lemma split_slash_plain: "CHR ''/'' \<notin> set n \<Longrightarrow> split_slash n = [n]"
  by (induction n) auto

lemma push_segment_plain: "plain_name n \<Longrightarrow> push_segment a segs n = segs @ [n]"
  by (simp add: push_segment_def plain_name_def)

lemma path_join_plain:
  "plain_name n \<Longrightarrow> path_join p n = Path (absolute p) (segments p @ [n])"
  by (simp add: path_join_def plain_name_def split_slash_plain push_segment_plain)

lemma segments_path_join_plain: "plain_name n \<Longrightarrow> segments (path_join p n) = segments p @ [n]"
  by (simp add: path_join_plain)

lemma parent_path_join_plain: "plain_name n \<Longrightarrow> parent (path_join p n) = p"
  by (simp add: path_join_plain parent_def path_collapse)

lemma path_join_plain_inj:
  "plain_name n \<Longrightarrow> plain_name m \<Longrightarrow> path_join p n = path_join p m \<Longrightarrow> n = m"
  by (simp add: path_join_plain)

lemma path_join_plain_neq: "plain_name n \<Longrightarrow> path_join p n \<noteq> p"
proof
  assume "plain_name n" and "path_join p n = p"
  then have "segments p @ [n] = segments p" by (metis segments_path_join_plain)
  then show False by simp
qed

lemma plain_json: "CHR ''/'' \<notin> set k \<Longrightarrow> plain_name (k @ ''.json'')"
  by (auto simp: plain_name_def dest: arg_cong[where f = length])

lemma plain_names: "plain_name ''GTypes''" "plain_name ''index.ts''" "plain_name ''grouped.json''"
  by (simp_all add: plain_name_def)

lemma node_at_plain:
  "plain_name n \<Longrightarrow> node_at fs (path_join p n) = map_of (entries fs) (path_join p n)"
  by (simp add: node_at_def segments_path_join_plain)

lemma node_at_writeFileSync:
  assumes "writeFileSync p c fs = Inr fs1"
  shows "node_at fs1 q = (if q = p then Some (File c) else node_at fs q)"
proof -
  from assms have s: "segments p \<noteq> []"
    and e: "entries fs1 = AList.update p (File c) (entries fs)"
    by (auto simp: writeFileSync_def split: if_splits option.splits node.splits)
  show ?thesis
  proof (cases "segments q = []")
    case True
    then show ?thesis using s by (auto simp: node_at_def)
  next
    case False
    then show ?thesis using s by (simp add: node_at_def e update_conv')
  qed
qed

lemma writes_writeFileSync:
  "writeFileSync p c fs = Inr fs1 \<Longrightarrow> writes fs1 = writes fs @ [(p, c)]"
  by (auto simp: writeFileSync_def split: if_splits option.splits node.splits)

lemma writeFileSync_succeeds:
  assumes "segments p \<noteq> []" "last (segments p) \<noteq> ''..''"
    and "node_at fs (parent p) = Some Dir" and "node_at fs p \<noteq> Some Dir"
  shows "\<exists>fs1. writeFileSync p c fs = Inr fs1"
  using assms by (auto simp: writeFileSync_def split: option.splits node.splits)

lemma writeFileSync_plain_succeeds:
  assumes "plain_name n" and "node_at fs p = Some Dir" and "node_at fs (path_join p n) \<noteq> Some Dir"
  shows "\<exists>fs1. writeFileSync (path_join p n) c fs = Inr fs1"
proof (rule writeFileSync_succeeds)
  show "segments (path_join p n) \<noteq> []" using assms(1) by (simp add: segments_path_join_plain)
  show "last (segments (path_join p n)) \<noteq> ''..''"
    using assms(1) by (simp add: segments_path_join_plain plain_name_def)
  show "node_at fs (parent (path_join p n)) = Some Dir"
    using assms(1,2) by (simp add: parent_path_join_plain)
  show "node_at fs (path_join p n) \<noteq> Some Dir" by (rule assms(3))
qed

lemma readFileSync_node:
  "readFileSync p fs = Inr c \<longleftrightarrow> node_at fs p = Some (File c)"
  by (auto simp: readFileSync_def split: option.splits node.splits)

lemma readdirSync_Dir: "readdirSync d fs = Inr ns \<Longrightarrow> d \<noteq> [] \<and> node_at fs (path_of d) = Some Dir"
  by (auto simp: readdirSync_def split: if_splits option.splits node.splits)

lemma readdirSync_distinct: "readdirSync d fs = Inr ns \<Longrightarrow> distinct ns"
  by (auto simp: readdirSync_def split: if_splits option.splits node.splits)

lemma readdirSync_iff:
  assumes "readdirSync d fs = Inr ns"
  shows "n \<in> set ns \<longleftrightarrow> plain_name n \<and> node_at fs (path_join (path_of d) n) \<noteq> None"
proof -
  let ?d = "path_of d"
  from assms have ns: "ns = remdups [last (segments p). (p, x) \<leftarrow> entries fs,
        segments p \<noteq> [], parent p = ?d, plain_name (last (segments p))]"
    by (auto simp: readdirSync_def split: if_splits option.splits node.splits)
  show ?thesis
  proof
    assume "n \<in> set ns"
    then obtain p x where px: "(p, x) \<in> set (entries fs)" and s: "segments p \<noteq> []"
      and par: "parent p = ?d" and pl: "plain_name (last (segments p))"
      and n: "n = last (segments p)"
      unfolding ns by auto
    have "p = Path (absolute p) (butlast (segments p) @ [last (segments p)])"
      using s by (simp add: path_collapse)
    also have "\<dots> = path_join ?d n"
    proof -
      have "absolute ?d = absolute p" "segments ?d = butlast (segments p)"
        using par[symmetric] by (simp_all add: parent_def)
      then show ?thesis using pl n by (simp add: path_join_plain)
    qed
    finally have "p = path_join ?d n" .
    then have "path_join ?d n \<in> fst ` set (entries fs)" using px by force
    then have "map_of (entries fs) (path_join ?d n) \<noteq> None"
      by (simp add: map_of_eq_None_iff)
    then show "plain_name n \<and> node_at fs (path_join ?d n) \<noteq> None"
      using pl n by (simp add: node_at_plain)
  next
    assume a: "plain_name n \<and> node_at fs (path_join ?d n) \<noteq> None"
    then have "map_of (entries fs) (path_join ?d n) \<noteq> None"
      using node_at_plain[of n fs ?d] by auto
    then obtain x where "(path_join ?d n, x) \<in> set (entries fs)"
      by (auto dest: map_of_SomeD)
    moreover have "segments (path_join ?d n) \<noteq> []" "parent (path_join ?d n) = ?d"
      "last (segments (path_join ?d n)) = n"
      using a by (simp_all add: segments_path_join_plain parent_path_join_plain)
    ultimately show "n \<in> set ns" unfolding ns using a by force
  qed
qed

section \<open>Default-config scaffolding\<close>

lemma generateDefaultConfig_skip:
  "k = ''version'' \<or> declared g k \<or> configDir_truthy g = None \<Longrightarrow>
   generateDefaultConfig g k fs = (fs, None)"
  by (auto simp: generateDefaultConfig_def)

lemma generateDefaultConfig_write:
  assumes "configDir g = Some d" "d \<noteq> []" "k \<noteq> ''version''" "\<not> declared g k"
  shows "generateDefaultConfig g k fs =
           (case writeFileSync (path_join (path_of d) (k @ ''.json''))
                   (Descriptor (defaultConfig k)) fs of
              Inl e \<Rightarrow> (fs, Some e) | Inr fs1 \<Rightarrow> (fs1, None))"
  using assms by (simp add: generateDefaultConfig_def configDir_truthy_def)

lemma generateDefaultConfigs_loop_noop:
  "configDir_truthy g = None \<Longrightarrow> generateDefaultConfigs_loop g ks fs = (fs, None)"
  by (induction ks) (simp_all add: generateDefaultConfig_skip)

lemma generateDefaultConfigs_loop_all_declared:
  "\<forall>k \<in> set ks. k = ''version'' \<or> declared g k \<Longrightarrow>
   generateDefaultConfigs_loop g ks fs = (fs, None)"
proof (induction ks)
  case Nil
  then show ?case by simp
next
  case (Cons a ks)
  then have "generateDefaultConfig g a fs = (fs, None)"
    by (intro generateDefaultConfig_skip) auto
  then show ?case using Cons by simp
qed

lemma json_path_inj:
  assumes "CHR ''/'' \<notin> set k" "CHR ''/'' \<notin> set k'"
    and "path_join p (k @ ''.json'') = path_join p (k' @ ''.json'')"
  shows "k = k'"
  using path_join_plain_inj[OF plain_json[OF assms(1)] plain_json[OF assms(2)] assms(3)] by simp

lemma generateDefaultConfigs_loop_run:
  assumes cd: "configDir g = Some d" and dne: "d \<noteq> []"
    and slash: "\<forall>k \<in> set ks. CHR ''/'' \<notin> set k"
    and dir: "node_at fs (path_of d) = Some Dir"
    and free: "\<forall>k \<in> set ks. k \<noteq> ''version'' \<and> \<not> declared g k \<longrightarrow>
                 node_at fs (path_join (path_of d) (k @ ''.json'')) \<noteq> Some Dir"
  shows "\<exists>fs1. generateDefaultConfigs_loop g ks fs = (fs1, None) \<and>
           (\<forall>q. node_at fs1 q =
              (case find (\<lambda>k. (k \<noteq> ''version'' \<and> \<not> declared g k) \<and>
                               path_join (path_of d) (k @ ''.json'') = q) ks of
                 Some k \<Rightarrow> Some (File (Descriptor (defaultConfig k)))
               | None \<Rightarrow> node_at fs q)) \<and>
           writes fs1 = writes fs @
             map (\<lambda>k. (path_join (path_of d) (k @ ''.json''), Descriptor (defaultConfig k)))
               (filter (\<lambda>k. k \<noteq> ''version'' \<and> \<not> declared g k) ks)"
  using slash dir free
proof (induction ks arbitrary: fs)
  case Nil
  then show ?case by simp
next
  case (Cons a ks)
  let ?W = "\<lambda>k. k \<noteq> ''version'' \<and> \<not> declared g k"
  let ?P = "\<lambda>k. path_join (path_of d) (k @ ''.json'')"
  let ?D = "\<lambda>k. Descriptor (defaultConfig k)"
  show ?case
  proof (cases "?W a")
    case False
    then have s: "generateDefaultConfig g a fs = (fs, None)"
      by (auto simp: generateDefaultConfig_skip)
    from Cons.IH[of fs] Cons.prems obtain fs1 where
      l: "generateDefaultConfigs_loop g ks fs = (fs1, None)"
      and n: "\<forall>q. node_at fs1 q =
                (case find (\<lambda>k. ?W k \<and> ?P k = q) ks of
                   Some k \<Rightarrow> Some (File (?D k)) | None \<Rightarrow> node_at fs q)"
      and w: "writes fs1 = writes fs @ map (\<lambda>k. (?P k, ?D k)) (filter ?W ks)"
      by auto
    show ?thesis using False s l n w by auto
  next
    case True
    have pa: "plain_name (a @ ''.json'')" using Cons.prems(1) by (simp add: plain_json)
    have "node_at fs (?P a) \<noteq> Some Dir" using Cons.prems(3) True by simp
    then obtain fs' where wr: "writeFileSync (?P a) (?D a) fs = Inr fs'"
      using writeFileSync_plain_succeeds[OF pa Cons.prems(2)] by blast
    have s: "generateDefaultConfig g a fs = (fs', None)"
      using generateDefaultConfig_write[OF cd dne, of a fs] True wr by simp
    have n': "node_at fs' q = (if q = ?P a then Some (File (?D a)) else node_at fs q)" for q
      by (rule node_at_writeFileSync[OF wr])
    have dir': "node_at fs' (path_of d) = Some Dir"
      using n'[of "path_of d"] path_join_plain_neq[OF pa, of "path_of d"] Cons.prems(2) by auto
    have free': "\<forall>k \<in> set ks. ?W k \<longrightarrow> node_at fs' (?P k) \<noteq> Some Dir"
      using n' Cons.prems(3) by auto
    from Cons.IH[of fs', OF _ dir' free'] Cons.prems(1) obtain fs1 where
      l: "generateDefaultConfigs_loop g ks fs' = (fs1, None)"
      and n: "\<forall>q. node_at fs1 q =
                (case find (\<lambda>k. ?W k \<and> ?P k = q) ks of
                   Some k \<Rightarrow> Some (File (?D k)) | None \<Rightarrow> node_at fs' q)"
      and w: "writes fs1 = writes fs' @ map (\<lambda>k. (?P k, ?D k)) (filter ?W ks)"
      by auto
    have run: "generateDefaultConfigs_loop g (a # ks) fs = (fs1, None)" using s l by simp
    have nodes: "node_at fs1 q =
                (case find (\<lambda>k. ?W k \<and> ?P k = q) (a # ks) of
                   Some k \<Rightarrow> Some (File (?D k)) | None \<Rightarrow> node_at fs q)" for q
    proof (cases "?P a = q")
      case same: True
      have "node_at fs1 q = Some (File (?D a))"
      proof (cases "find (\<lambda>k. ?W k \<and> ?P k = q) ks")
        case None
        then show ?thesis using n n' same by simp
      next
        case (Some k)
        then have "k \<in> set ks" "?P k = q" by (auto simp: find_Some_iff)
        then have "k = a" using json_path_inj[of k a "path_of d"] Cons.prems(1) same by auto
        then show ?thesis using n Some by simp
      qed
      then show ?thesis using same True by simp
    next
      case other: False
      then show ?thesis using n n' by (auto split: option.splits)
    qed
    have log: "writes fs1 = writes fs @ map (\<lambda>k. (?P k, ?D k)) (filter ?W (a # ks))"
      using w writes_writeFileSync[OF wr] True by simp
    show ?thesis using run nodes log by blast
  qed
qed

text \<open>
  C10. When no descriptor directory is set (\<open>loadConfig\<close> was never called),
  \<open>generateDefaultConfigs\<close> leaves the file system as it is, write log included, whatever
  the dataset and the config map are; it does not fail.
\<close>

theorem generateDefaultConfigs_without_configDir:
  assumes "configDir g = None"
  shows "generateDefaultConfigs g data fs = (fs, None)"
  using assms generateDefaultConfigs_loop_noop[of g "map fst data" fs]
  by (simp add: generateDefaultConfigs_def configDir_truthy_def)

theorem generateDefaultConfigs_without_configDir_witness:
  "configDir (initial_Generator ''out'') = None \<and>
   \<not> declared (initial_Generator ''out'') ''items'' \<and>
   generateDefaultConfigs (initial_Generator ''out'') [(''items'', ())] empty_fs
   = (empty_fs, None)"
  using generateDefaultConfigs_without_configDir
    [of "initial_Generator ''out''" "[(''items'', ())]" empty_fs]
  by (simp add: initial_Generator_def declared_def)

text \<open>
  C5, as the spec states it, fails. The directory \<open>cfg\<close> was loaded and holds no
  descriptor; the dataset has the keys \<open>a/b\<close> and \<open>items\<close>, neither declared by a config.
  The write for \<open>a/b\<close> goes to \<open>cfg/a/b.json\<close>, whose directory is missing, and throws;
  the loop ends there and \<open>items\<close> gets no descriptor.
\<close>

theorem scaffolding_aborts_on_separator_counterexample:
  "loadConfig ''cfg'' \<lparr>entries = [(path_of ''cfg'', Dir)], writes = []\<rparr>
     (initial_Generator ''out'')
     = (\<lparr>configMap = [], targetDir = ''out'', configDir = Some ''cfg''\<rparr>, None)
   \<and> \<not> declared \<lparr>configMap = [], targetDir = ''out'', configDir = Some ''cfg''\<rparr> ''items''
   \<and> generateDefaultConfigs \<lparr>configMap = [], targetDir = ''out'', configDir = Some ''cfg''\<rparr>
       [(''a/b'', ()), (''items'', ())] \<lparr>entries = [(path_of ''cfg'', Dir)], writes = []\<rparr>
     = (\<lparr>entries = [(path_of ''cfg'', Dir)], writes = []\<rparr>, Some ENOENT)
   \<and> readFileSync (path_join (path_of ''cfg'') ''items.json'')
       (fst (generateDefaultConfigs
          \<lparr>configMap = [], targetDir = ''out'', configDir = Some ''cfg''\<rparr>
          [(''a/b'', ()), (''items'', ())] \<lparr>entries = [(path_of ''cfg'', Dir)], writes = []\<rparr>))
     = Inl ENOENT"
  by code_simp

text \<open>
  C5, amended. Let the descriptor directory \<open>d\<close> be set to a non-empty string (as
  after \<open>loadConfig\<close>) and exist, let no key of the dataset contain a path separator, and
  let no directory
  stand where a descriptor is to be written. Then \<open>generateDefaultConfigs\<close> ends without
  error, and for every key \<open>k\<close> of the raw dataset other than \<open>version\<close> that no loaded
  config declares as its \<open>GKey\<close> it has written the file \<open>d/k.json\<close>, which then holds
  the config with \<open>disabled\<close> true, empty \<open>overrides\<close>, \<open>extractedTypes\<close>, \<open>description\<close>
  and \<open>nameOverride\<close>, \<open>groupKey\<close> null and \<open>GKey\<close> equal to \<open>k\<close>; the file
  \<open>d/version.json\<close> is not written.
\<close>

theorem generateDefaultConfigs_synthesizes:
  assumes "configDir g = Some d" and "d \<noteq> []"
    and "node_at fs (path_of d) = Some Dir"
    and "\<forall>k \<in> fst ` set data. CHR ''/'' \<notin> set k"
    and "\<forall>k \<in> fst ` set data. k \<noteq> ''version'' \<and> \<not> declared g k \<longrightarrow>
           node_at fs (path_join (path_of d) (k @ ''.json'')) \<noteq> Some Dir"
  shows "\<exists>fs1. generateDefaultConfigs g data fs = (fs1, None) \<and>
           (\<forall>k \<in> fst ` set data. k \<noteq> ''version'' \<and> \<not> declared g k \<longrightarrow>
              readFileSync (path_join (path_of d) (k @ ''.json'')) fs1
                = Inr (Descriptor \<lparr>disabled = Present True, overrides = Present [],
                    extractedTypes = Present [], description = Present [],
                    nameOverride = Present [], GKey = Present k, groupKey = Present None\<rparr>)
              \<and> (path_join (path_of d) (k @ ''.json''),
                  Descriptor \<lparr>disabled = Present True, overrides = Present [],
                    extractedTypes = Present [], description = Present [],
                    nameOverride = Present [], GKey = Present k, groupKey = Present None\<rparr>)
                \<in> set (writes fs1)) \<and>
           (\<forall>c. (path_join (path_of d) ''version.json'', c) \<in> set (writes fs1) \<longrightarrow>
                (path_join (path_of d) ''version.json'', c) \<in> set (writes fs))"
proof -
  let ?ks = "map fst data"
  let ?W = "\<lambda>k. k \<noteq> ''version'' \<and> \<not> declared g k"
  let ?P = "\<lambda>k. path_join (path_of d) (k @ ''.json'')"
  let ?D = "\<lambda>k. Descriptor (defaultConfig k)"
  have slash: "\<forall>k \<in> set ?ks. CHR ''/'' \<notin> set k" using assms(4) by simp
  have free: "\<forall>k \<in> set ?ks. ?W k \<longrightarrow> node_at fs (?P k) \<noteq> Some Dir" using assms(5) by simp
  from generateDefaultConfigs_loop_run[OF assms(1,2) slash assms(3) free] obtain fs1 where
    l: "generateDefaultConfigs_loop g ?ks fs = (fs1, None)"
    and n: "\<forall>q. node_at fs1 q =
              (case find (\<lambda>k. ?W k \<and> ?P k = q) ?ks of
                 Some k \<Rightarrow> Some (File (?D k)) | None \<Rightarrow> node_at fs q)"
    and w: "writes fs1 = writes fs @ map (\<lambda>k. (?P k, ?D k)) (filter ?W ?ks)"
    by blast
  have content: "readFileSync (?P k) fs1 = Inr (?D k) \<and> (?P k, ?D k) \<in> set (writes fs1)"
    if k: "k \<in> set ?ks" and wk: "?W k" for k
  proof -
    obtain k' where f: "find (\<lambda>j. ?W j \<and> ?P j = ?P k) ?ks = Some k'"
      using k wk by (cases "find (\<lambda>j. ?W j \<and> ?P j = ?P k) ?ks") (auto simp: find_None_iff)
    then have "k' \<in> set ?ks" "?P k' = ?P k" by (auto simp: find_Some_iff)
    then have "k' = k" using json_path_inj[of k' k "path_of d"] slash k by auto
    then have "node_at fs1 (?P k) = Some (File (?D k))" using n f by simp
    moreover have "(?P k, ?D k) \<in> set (writes fs1)" unfolding w using k wk by auto
    ultimately show ?thesis by (simp add: readFileSync_node)
  qed
  have version: "(?P ''version'', c) \<in> set (writes fs)"
    if v: "(?P ''version'', c) \<in> set (writes fs1)" for c
  proof (rule ccontr)
    define P where "P = ?P"
    assume "(?P ''version'', c) \<notin> set (writes fs)"
    then have "(P ''version'', c) \<in> set (map (\<lambda>k. (P k, ?D k)) (filter ?W ?ks))"
      using v unfolding w P_def by simp
    then have "\<exists>k \<in> set (filter ?W ?ks). P k = P ''version''" by auto
    then obtain k where kf: "k \<in> set (filter ?W ?ks)" and "P k = P ''version''" by blast
    from kf have "k \<in> set ?ks" "?W k" by auto
    note \<open>P k = P ''version''\<close>
    have eq: "path_join (path_of d) (k @ ''.json'')
              = path_join (path_of d) (''version'' @ ''.json'')"
      using \<open>P k = P ''version''\<close> unfolding P_def .
    have ks: "CHR ''/'' \<notin> set k" using slash \<open>k \<in> set ?ks\<close> by blast
    have vs: "CHR ''/'' \<notin> set ''version''" by simp
    have "k = ''version''" by (rule json_path_inj[OF ks vs eq])
    then show False using \<open>?W k\<close> by simp
  qed
  show ?thesis
    using l content version
    by (auto simp: generateDefaultConfigs_def defaultConfig_def)
qed

theorem generateDefaultConfigs_synthesizes_witness:
  "readFileSync (path_join (path_of ''cfg'') ''items.json'')
     (fst (generateDefaultConfigs \<lparr>configMap = [], targetDir = ''out'', configDir = Some ''cfg''\<rparr>
        [(''version'', ()), (''items'', ())] \<lparr>entries = [(path_of ''cfg'', Dir)], writes = []\<rparr>))
   = Inr (Descriptor \<lparr>disabled = Present True, overrides = Present [],
        extractedTypes = Present [], description = Present [],
        nameOverride = Present [], GKey = Present ''items'', groupKey = Present None\<rparr>)
   \<and> snd (generateDefaultConfigs
        \<lparr>configMap = [], targetDir = ''out'', configDir = Some ''cfg''\<rparr>
        [(''version'', ()), (''items'', ())] \<lparr>entries = [(path_of ''cfg'', Dir)], writes = []\<rparr>)
     = None
   \<and> writes (fst (generateDefaultConfigs
        \<lparr>configMap = [], targetDir = ''out'', configDir = Some ''cfg''\<rparr>
        [(''version'', ()), (''items'', ())] \<lparr>entries = [(path_of ''cfg'', Dir)], writes = []\<rparr>))
     = [(path_join (path_of ''cfg'') ''items.json'', Descriptor (defaultConfig ''items''))]"
proof -
  let ?g = "\<lparr>configMap = [], targetDir = ''out'', configDir = Some ''cfg''\<rparr>"
  let ?fs = "\<lparr>entries = [(path_of ''cfg'', Dir)], writes = []\<rparr>"
  let ?data = "[(''version'', ()), (''items'', ())]"
  have h1: "configDir ?g = Some ''cfg''" and h2: "''cfg'' \<noteq> []" by simp_all
  have h3: "node_at ?fs (path_of ''cfg'') = Some Dir" by code_simp
  have h4: "\<forall>k \<in> fst ` set ?data. CHR ''/'' \<notin> set k" by simp
  have h5: "\<forall>k \<in> fst ` set ?data. k \<noteq> ''version'' \<and> \<not> declared ?g k \<longrightarrow>
              node_at ?fs (path_join (path_of ''cfg'') (k @ ''.json'')) \<noteq> Some Dir"
  proof -
    have "node_at ?fs (path_join (path_of ''cfg'') (''items'' @ ''.json'')) \<noteq> Some Dir"
      by code_simp
    then show ?thesis by simp
  qed
  have nd: "\<not> declared ?g ''items''" by (simp add: declared_def)
  have w: "writes (fst (generateDefaultConfigs ?g ?data ?fs))
           = [(path_join (path_of ''cfg'') ''items.json'', Descriptor (defaultConfig ''items''))]"
    by code_simp
  from generateDefaultConfigs_synthesizes[OF h1 h2 h3 h4 h5] obtain fs1 where
    r: "generateDefaultConfigs ?g ?data ?fs = (fs1, None)"
    and c: "\<forall>k \<in> fst ` set ?data. k \<noteq> ''version'' \<and> \<not> declared ?g k \<longrightarrow>
              readFileSync (path_join (path_of ''cfg'') (k @ ''.json'')) fs1
                = Inr (Descriptor \<lparr>disabled = Present True, overrides = Present [],
                    extractedTypes = Present [], description = Present [],
                    nameOverride = Present [], GKey = Present k, groupKey = Present None\<rparr>)
              \<and> (path_join (path_of ''cfg'') (k @ ''.json''),
                  Descriptor \<lparr>disabled = Present True, overrides = Present [],
                    extractedTypes = Present [], description = Present [],
                    nameOverride = Present [], GKey = Present k, groupKey = Present None\<rparr>)
                \<in> set (writes fs1)"
    by blast
  from c nd have "readFileSync (path_join (path_of ''cfg'') ''items.json'') fs1
      = Inr (Descriptor \<lparr>disabled = Present True, overrides = Present [],
          extractedTypes = Present [], description = Present [],
          nameOverride = Present [], GKey = Present ''items'', groupKey = Present None\<rparr>)"
    by simp
  then show ?thesis using r w by simp
qed

section \<open>Loading descriptors\<close>

lemma parse_descriptor_Inr:
  "parse_descriptor p fs = Inr c \<longleftrightarrow> readFileSync p fs = Inr (Descriptor c)"
  by (auto simp: parse_descriptor_def split: sum.splits content.splits)

lemma parse_descriptor_Inl:
  "parse_descriptor p fs = Inl e \<longleftrightarrow>
   readFileSync p fs = Inl e \<or> (\<exists>s. readFileSync p fs = Inr (Text s) \<and> e = SyntaxError s)"
  by (auto simp: parse_descriptor_def split: sum.splits content.splits)

lemma basename_json_append: "is_json_file f \<Longrightarrow> basename_json f @ ''.json'' = f"
proof -
  assume "is_json_file f"
  then have "drop (length f - 5) f = ''.json''" by (simp add: is_json_file_def)
  then have "take (length f - 5) f @ ''.json'' = f" by (metis append_take_drop_id)
  then show ?thesis by (simp add: basename_json_def)
qed

lemma basename_json_inj:
  "is_json_file f1 \<Longrightarrow> is_json_file f2 \<Longrightarrow> basename_json f1 = basename_json f2 \<Longrightarrow> f1 = f2"
  by (metis basename_json_append)

lemma is_json_file_append: "is_json_file (k @ ''.json'') \<longleftrightarrow> k \<noteq> []"
  by (auto simp: is_json_file_def)

lemma basename_json_of_append: "basename_json (k @ ''.json'') = k"
  by (simp add: basename_json_def)

lemma loop_error:
  "loadConfig_loop d fs ns g = (g', Some e) \<Longrightarrow>
   \<exists>n \<in> set ns. parse_descriptor (path_join (path_of d) n) fs = Inl e"
proof (induction ns arbitrary: g)
  case Nil
  then show ?case by simp
next
  case (Cons a ns)
  then show ?case by (auto split: sum.splits)
qed

lemma loop_other:
  "loadConfig_loop d fs ns g = (g', None) \<Longrightarrow> m \<notin> basename_json ` set ns \<Longrightarrow>
   map_of (configMap g') m = map_of (configMap g) m"
proof (induction ns arbitrary: g)
  case Nil
  then show ?case by simp
next
  case (Cons a ns)
  then show ?case
    by (auto simp: map_set_def update_conv' split: sum.splits)
qed

lemma loop_forward:
  "loadConfig_loop d fs ns g = (g', None) \<Longrightarrow> distinct (map basename_json ns) \<Longrightarrow>
   n \<in> set ns \<Longrightarrow>
   \<exists>c. readFileSync (path_join (path_of d) n) fs = Inr (Descriptor c) \<and>
       map_of (configMap g') (basename_json n) = Some c"
proof (induction ns arbitrary: g)
  case Nil
  then show ?case by simp
next
  case (Cons a ns)
  from Cons.prems(1) obtain c where
    c: "parse_descriptor (path_join (path_of d) a) fs = Inr c"
    and l: "loadConfig_loop d fs ns (g\<lparr>configMap := map_set (basename_json a) c (configMap g)\<rparr>)
            = (g', None)"
    by (auto split: sum.splits)
  show ?case
  proof (cases "n = a")
    case True
    have "basename_json a \<notin> basename_json ` set ns" using Cons.prems(2) by auto
    then have "map_of (configMap g') (basename_json a) = Some c"
      using loop_other[OF l] by (simp add: map_set_def update_conv')
    then show ?thesis using True c by (simp add: parse_descriptor_Inr)
  next
    case False
    then show ?thesis using Cons.IH[OF l] Cons.prems by simp
  qed
qed

lemma loop_backward:
  "loadConfig_loop d fs ns g = (g', None) \<Longrightarrow> map_of (configMap g') m = Some c \<Longrightarrow>
   map_of (configMap g) m = Some c \<or>
   (\<exists>n \<in> set ns. m = basename_json n \<and>
      readFileSync (path_join (path_of d) n) fs = Inr (Descriptor c))"
proof (induction ns arbitrary: g)
  case Nil
  then show ?case by simp
next
  case (Cons a ns)
  from Cons.prems(1) obtain c' where
    c: "parse_descriptor (path_join (path_of d) a) fs = Inr c'"
    and l: "loadConfig_loop d fs ns (g\<lparr>configMap := map_set (basename_json a) c' (configMap g)\<rparr>)
            = (g', None)"
    by (auto split: sum.splits)
  have r: "readFileSync (path_join (path_of d) a) fs = Inr (Descriptor c')"
    using c by (simp add: parse_descriptor_Inr)
  from Cons.IH[OF l Cons.prems(2)] show ?case
    using r by (auto simp: map_set_def update_conv' split: if_splits)
qed

lemma loop_distinct:
  "loadConfig_loop d fs ns g = (g', None) \<Longrightarrow> distinct (map fst (configMap g)) \<Longrightarrow>
   distinct (map fst (configMap g'))"
proof (induction ns arbitrary: g)
  case Nil
  then show ?case by simp
next
  case (Cons a ns)
  then show ?case
    by (auto simp: map_set_def distinct_update split: sum.splits)
qed

lemma loop_configDir:
  "loadConfig_loop d fs ns g = (g', e) \<Longrightarrow> configDir g' = configDir g"
proof (induction ns arbitrary: g)
  case Nil
  then show ?case by simp
next
  case (Cons a ns)
  then show ?case by (auto split: sum.splits)
qed

lemma loadConfig_configDir: "loadConfig d fs g0 = (g, e) \<Longrightarrow> configDir g = Some d"
  using loop_configDir[of d fs _ "g0\<lparr>configDir := Some d\<rparr>" g e]
  by (auto simp: loadConfig_def split: sum.splits)

lemma json_listing_distinct_basenames:
  assumes "readdirSync d fs = Inr ns"
  shows "distinct (map basename_json (filter is_json_file ns))"
proof -
  have "inj_on basename_json (set (filter is_json_file ns))"
    by (rule inj_onI) (auto dest: basename_json_inj)
  moreover have "distinct (filter is_json_file ns)"
    using readdirSync_distinct[OF assms] by simp
  ultimately show ?thesis by (simp add: distinct_map)
qed

lemma loadConfig_success:
  assumes "loadConfig d fs g = (g', None)"
  obtains ns where "readdirSync d fs = Inr ns"
    and "loadConfig_loop d fs (filter is_json_file ns) (g\<lparr>configDir := Some d\<rparr>) = (g', None)"
  using assms by (auto simp: loadConfig_def split: sum.splits)

text \<open>
  C7, as the spec states it, fails twice. A descriptor that parses but lacks every
  required field is loaded without error; and the error for an unparsable descriptor is
  the same whether the file is \<open>a.json\<close> or \<open>b.json\<close>, so it does not tell which file
  was malformed.
\<close>

theorem loadConfig_malformed_counterexample:
  "snd (loadConfig ''cfg''
         \<lparr>entries = [(path_of ''cfg'', Dir),
            (path_of ''cfg/items.json'',
             File (Descriptor \<lparr>disabled = Missing, overrides = Missing,
               extractedTypes = Missing, description = Missing, nameOverride = Missing,
               GKey = Missing, groupKey = Missing\<rparr>))], writes = []\<rparr>
         (initial_Generator ''out'')) = None
   \<and> snd (loadConfig ''cfg''
            \<lparr>entries = [(path_of ''cfg'', Dir), (path_of ''cfg/a.json'', File (Text ''{''))],
              writes = []\<rparr> (initial_Generator ''out''))
     = Some (SyntaxError ''{'')
   \<and> snd (loadConfig ''cfg''
            \<lparr>entries = [(path_of ''cfg'', Dir), (path_of ''cfg/b.json'', File (Text ''{''))],
              writes = []\<rparr> (initial_Generator ''out''))
     = Some (SyntaxError ''{'')"
  by code_simp

lemma loadConfig_cases:
  assumes "loadConfig d fs g = (g', e)"
  shows "case e of
           None \<Rightarrow>
             (\<exists>ns. readdirSync d fs = Inr ns \<and>
                (\<forall>n \<in> set (filter is_json_file ns). \<exists>c.
                   readFileSync (path_join (path_of d) n) fs = Inr (Descriptor c) \<and>
                   map_of (configMap g') (basename_json n) = Some c))
         | Some err \<Rightarrow>
             readdirSync d fs = Inl err \<or>
             (\<exists>ns. readdirSync d fs = Inr ns \<and>
                (\<exists>n \<in> set (filter is_json_file ns).
                   readFileSync (path_join (path_of d) n) fs = Inl err \<or>
                   (\<exists>s. readFileSync (path_join (path_of d) n) fs = Inr (Text s) \<and>
                        err = SyntaxError s)))"
proof (cases e)
  case None
  with assms obtain ns where r: "readdirSync d fs = Inr ns"
    and l: "loadConfig_loop d fs (filter is_json_file ns) (g\<lparr>configDir := Some d\<rparr>) = (g', None)"
    by (auto elim: loadConfig_success)
  have "\<exists>c. readFileSync (path_join (path_of d) n) fs = Inr (Descriptor c) \<and>
            map_of (configMap g') (basename_json n) = Some c"
    if "n \<in> set (filter is_json_file ns)" for n
    using loop_forward[OF l json_listing_distinct_basenames[OF r] that] .
  then show ?thesis using None r by auto
next
  case (Some err)
  show ?thesis
  proof (cases "readdirSync d fs")
    case (Inl x)
    then show ?thesis using assms Some by (auto simp: loadConfig_def)
  next
    case (Inr ns)
    then have "loadConfig_loop d fs (filter is_json_file ns) (g\<lparr>configDir := Some d\<rparr>)
               = (g', Some err)"
      using assms Some by (simp add: loadConfig_def)
    from loop_error[OF this] obtain n where "n \<in> set (filter is_json_file ns)"
      "parse_descriptor (path_join (path_of d) n) fs = Inl err" by blast
    then show ?thesis using Some Inr by (auto simp: parse_descriptor_Inl)
  qed
qed

text \<open>
  C7, amended. \<open>loadConfig\<close> aborts in three cases only: the directory cannot be listed;
  a \<open>.json\<close> entry of it cannot be read; or the text of a \<open>.json\<close> file is unparsable,
  and then the error is the \<open>SyntaxError\<close> that \<open>JSON.parse\<close> computes from that text,
  which does not name the file. When it returns normally, every \<open>.json\<close> file of the
  directory parsed and its config is in the map under the file's name without the
  extension, whichever fields it has.
\<close>

theorem loadConfig_aborts_and_loads:
  assumes "loadConfig d fs g = (g', e)"
  shows "case e of
           None \<Rightarrow>
             (\<exists>ns. readdirSync d fs = Inr ns \<and>
                (\<forall>n \<in> set (filter is_json_file ns). \<exists>c.
                   readFileSync (path_join (path_of d) n) fs = Inr (Descriptor c) \<and>
                   map_of (configMap g') (basename_json n) = Some c))
         | Some err \<Rightarrow>
             readdirSync d fs = Inl err \<or>
             (\<exists>ns. readdirSync d fs = Inr ns \<and>
                (\<exists>n \<in> set (filter is_json_file ns).
                   readFileSync (path_join (path_of d) n) fs = Inl err \<or>
                   (\<exists>s. readFileSync (path_join (path_of d) n) fs = Inr (Text s) \<and>
                        err = SyntaxError s)))"
  using assms by (rule loadConfig_cases)

theorem loadConfig_aborts_and_loads_witness:
  "loadConfig ''cfg''
     \<lparr>entries = [(path_of ''cfg'', Dir),
        (path_of ''cfg/items.json'',
         File (Descriptor \<lparr>disabled = Missing, overrides = Missing,
           extractedTypes = Missing, description = Missing, nameOverride = Missing,
           GKey = Missing, groupKey = Missing\<rparr>))], writes = []\<rparr>
     (initial_Generator ''out'')
   = (\<lparr>configMap = [(''items'', \<lparr>disabled = Missing, overrides = Missing,
           extractedTypes = Missing, description = Missing, nameOverride = Missing,
           GKey = Missing, groupKey = Missing\<rparr>)], targetDir = ''out'',
       configDir = Some ''cfg''\<rparr>, None)
   \<and> (\<exists>ns. readdirSync ''cfg''
       \<lparr>entries = [(path_of ''cfg'', Dir),
        (path_of ''cfg/items.json'',
         File (Descriptor \<lparr>disabled = Missing, overrides = Missing,
           extractedTypes = Missing, description = Missing, nameOverride = Missing,
           GKey = Missing, groupKey = Missing\<rparr>))], writes = []\<rparr> = Inr ns)"
proof -
  let ?c = "\<lparr>disabled = Missing, overrides = Missing,
           extractedTypes = Missing, description = Missing, nameOverride = Missing,
           GKey = Missing, groupKey = Missing\<rparr>"
  let ?fs = "\<lparr>entries = [(path_of ''cfg'', Dir), (path_of ''cfg/items.json'', File (Descriptor ?c))],
             writes = []\<rparr>"
  have r: "loadConfig ''cfg'' ?fs (initial_Generator ''out'')
           = (\<lparr>configMap = [(''items'', ?c)], targetDir = ''out'', configDir = Some ''cfg''\<rparr>,
              None)"
    by code_simp
  from loadConfig_aborts_and_loads[OF r] have "\<exists>ns. readdirSync ''cfg'' ?fs = Inr ns"
    by auto
  then show ?thesis using r by simp
qed

section \<open>Scaffolding across runs\<close>

lemma declared_map_of:
  assumes "distinct (map fst (configMap g))"
  shows "declared g k \<longleftrightarrow> (\<exists>m c. map_of (configMap g) m = Some c \<and> GKey c = Present k)"
proof
  assume "declared g k"
  then obtain m c where "(m, c) \<in> set (configMap g)" "GKey c = Present k"
    by (auto simp: declared_def list_ex_iff)
  then show "\<exists>m c. map_of (configMap g) m = Some c \<and> GKey c = Present k"
    using assms by (metis map_of_eq_Some_iff)
next
  assume "\<exists>m c. map_of (configMap g) m = Some c \<and> GKey c = Present k"
  then obtain m c where "map_of (configMap g) m = Some c" "GKey c = Present k" by blast
  then have "c \<in> snd ` set (configMap g)" by (force dest: map_of_SomeD)
  then show "declared g k" using \<open>GKey c = Present k\<close>
    by (auto simp: declared_def list_ex_iff)
qed

lemma declared_loadConfig:
  assumes "loadConfig d fs (initial_Generator t) = (g, None)"
    and "readdirSync d fs = Inr ns"
  shows "declared g k \<longleftrightarrow>
         (\<exists>n \<in> set (filter is_json_file ns). \<exists>c.
            readFileSync (path_join (path_of d) n) fs = Inr (Descriptor c) \<and> GKey c = Present k)"
proof -
  let ?L = "filter is_json_file ns"
  let ?g0 = "(initial_Generator t)\<lparr>configDir := Some d\<rparr>"
  have l: "loadConfig_loop d fs ?L ?g0 = (g, None)"
    using assms by (simp add: loadConfig_def)
  have e: "configMap ?g0 = []" by (simp add: initial_Generator_def)
  have dg: "distinct (map fst (configMap g))"
    using loop_distinct[OF l] e by simp
  show ?thesis
  proof
    assume "declared g k"
    then obtain m c where mc: "map_of (configMap g) m = Some c" "GKey c = Present k"
      using declared_map_of[OF dg] by blast
    from loop_backward[OF l mc(1)] e mc(2) show
      "\<exists>n \<in> set ?L. \<exists>c. readFileSync (path_join (path_of d) n) fs = Inr (Descriptor c)
         \<and> GKey c = Present k"
      by auto
  next
    assume "\<exists>n \<in> set ?L. \<exists>c. readFileSync (path_join (path_of d) n) fs = Inr (Descriptor c)
         \<and> GKey c = Present k"
    then obtain n c where n: "n \<in> set ?L"
      "readFileSync (path_join (path_of d) n) fs = Inr (Descriptor c)" "GKey c = Present k"
      by blast
    from loop_forward[OF l json_listing_distinct_basenames[OF assms(2)] n(1)] n(2)
    have "map_of (configMap g) (basename_json n) = Some c" by auto
    then show "declared g k" using declared_map_of[OF dg] n(3) by blast
  qed
qed

lemma readdirSync_exists:
  "d \<noteq> [] \<Longrightarrow> node_at fs (path_of d) = Some Dir \<Longrightarrow> \<exists>ns. readdirSync d fs = Inr ns"
  by (simp add: readdirSync_def)

text \<open>
  C3, as the spec states it, fails. The directory holds \<open>items.json\<close>, whose config
  declares the \<open>GKey\<close> \<open>monsters\<close>; the dataset has the categories \<open>items\<close> and
  \<open>monsters\<close>. The first run (load, then scaffold) overwrites \<open>items.json\<close> with the
  default config of \<open>items\<close>, and the second run on the resulting directory writes
  again, now \<open>monsters.json\<close>.
\<close>

theorem scaffolding_counterexample:
  "readFileSync (path_of ''cfg/items.json'')
     \<lparr>entries = [(path_of ''cfg'', Dir),
        (path_of ''cfg/items.json'',
         File (Descriptor ((sample_config None)\<lparr>GKey := Present ''monsters''\<rparr>)))],
       writes = []\<rparr>
     = Inr (Descriptor ((sample_config None)\<lparr>GKey := Present ''monsters''\<rparr>))
   \<and> generateDefaultConfigs
          (fst (loadConfig ''cfg''
             \<lparr>entries = [(path_of ''cfg'', Dir),
                (path_of ''cfg/items.json'',
                 File (Descriptor ((sample_config None)\<lparr>GKey := Present ''monsters''\<rparr>)))],
               writes = []\<rparr> (initial_Generator ''out'')))
          [(''items'', ()), (''monsters'', ())]
          \<lparr>entries = [(path_of ''cfg'', Dir),
             (path_of ''cfg/items.json'',
              File (Descriptor ((sample_config None)\<lparr>GKey := Present ''monsters''\<rparr>)))],
            writes = []\<rparr>
     = (\<lparr>entries = [(path_of ''cfg'', Dir),
           (path_of ''cfg/items.json'', File (Descriptor (defaultConfig ''items'')))],
         writes = [(path_of ''cfg/items.json'', Descriptor (defaultConfig ''items''))]\<rparr>, None)
   \<and> writes (fst (generateDefaultConfigs
          (fst (loadConfig ''cfg''
             \<lparr>entries = [(path_of ''cfg'', Dir),
                (path_of ''cfg/items.json'', File (Descriptor (defaultConfig ''items'')))],
               writes = [(path_of ''cfg/items.json'', Descriptor (defaultConfig ''items''))]\<rparr>
             (initial_Generator ''out'')))
          [(''items'', ()), (''monsters'', ())]
          \<lparr>entries = [(path_of ''cfg'', Dir),
             (path_of ''cfg/items.json'', File (Descriptor (defaultConfig ''items'')))],
            writes = [(path_of ''cfg/items.json'', Descriptor (defaultConfig ''items''))]\<rparr>))
     = [(path_of ''cfg/items.json'', Descriptor (defaultConfig ''items'')),
        (path_of ''cfg/monsters.json'', Descriptor (defaultConfig ''monsters''))]"
  by code_simp

text \<open>
  C3, amended. Let every descriptor file \<open>n.json\<close> of the directory declare the \<open>GKey\<close>
  \<open>n\<close> (the convention the source documents for \<open>GKey\<close>), and let the category names
  be non-empty and free of path separators. Then a run, \<open>loadConfig\<close> followed by
  \<open>generateDefaultConfigs\<close>, ends without error and leaves every file that exists with
  its content, so it only creates files; and a second run on the same dataset and the
  resulting directory loads without error and leaves the file system, write log
  included, as it is.
\<close>

theorem scaffolding_idempotent_additive:
  assumes load: "loadConfig d fs (initial_Generator t) = (g, None)"
    and listing: "readdirSync d fs = Inr ns"
    and names: "\<forall>n \<in> set (filter is_json_file ns). \<forall>c.
                  readFileSync (path_join (path_of d) n) fs = Inr (Descriptor c) \<longrightarrow>
                  GKey c = Present (basename_json n)"
    and keys: "\<forall>k \<in> fst ` set data. k \<noteq> [] \<and> CHR ''/'' \<notin> set k"
  shows "\<exists>fs1. generateDefaultConfigs g data fs = (fs1, None)
           \<and> (\<forall>p x. readFileSync p fs = Inr x \<longrightarrow> readFileSync p fs1 = Inr x)
           \<and> (\<exists>g'. loadConfig d fs1 (initial_Generator t') = (g', None)
                  \<and> generateDefaultConfigs g' data fs1 = (fs1, None))"
proof -
  let ?L = "filter is_json_file ns"
  let ?ks = "map fst data"
  let ?W = "\<lambda>k. k \<noteq> ''version'' \<and> \<not> declared g k"
  let ?P = "\<lambda>k. path_join (path_of d) (k @ ''.json'')"
  let ?D = "\<lambda>k. Descriptor (defaultConfig k)"
  have cd: "configDir g = Some d" by (rule loadConfig_configDir[OF load])
  have dne: "d \<noteq> []" and dir: "node_at fs (path_of d) = Some Dir"
    using readdirSync_Dir[OF listing] by simp_all
  have l: "loadConfig_loop d fs ?L ((initial_Generator t)\<lparr>configDir := Some d\<rparr>) = (g, None)"
    using load listing by (simp add: loadConfig_def)
  have parsed: "\<exists>c. readFileSync (path_join (path_of d) n) fs = Inr (Descriptor c)"
    if "n \<in> set ?L" for n
    using loop_forward[OF l json_listing_distinct_basenames[OF listing] that] by blast
  have slash: "\<forall>k \<in> set ?ks. CHR ''/'' \<notin> set k" using keys by simp
  \<comment> \<open>a category whose file exists is declared\<close>
  have existing: "declared g k"
    if k: "k \<in> set ?ks" and x: "node_at fs (?P k) \<noteq> None" for k
  proof -
    have kk: "k \<noteq> []" "CHR ''/'' \<notin> set k" using keys k by auto
    have "k @ ''.json'' \<in> set ns"
      using x kk by (simp add: readdirSync_iff[OF listing] plain_json)
    then have inL: "k @ ''.json'' \<in> set ?L" using kk by (simp add: is_json_file_append)
    then obtain c where c: "readFileSync (?P k) fs = Inr (Descriptor c)"
      using parsed by blast
    then have "GKey c = Present k" using names inL by (simp add: basename_json_of_append)
    then show ?thesis using declared_loadConfig[OF load listing] inL c by blast
  qed
  have free: "\<forall>k \<in> set ?ks. ?W k \<longrightarrow> node_at fs (?P k) \<noteq> Some Dir"
    using existing by auto
  from generateDefaultConfigs_loop_run[OF cd dne slash dir free] obtain fs1 where
    run: "generateDefaultConfigs_loop g ?ks fs = (fs1, None)"
    and n: "\<forall>q. node_at fs1 q =
              (case find (\<lambda>k. ?W k \<and> ?P k = q) ?ks of
                 Some k \<Rightarrow> Some (File (?D k)) | None \<Rightarrow> node_at fs q)"
    by blast
  have either: "(\<exists>k. node_at fs1 q = Some (File (?D k))) \<or> node_at fs1 q = node_at fs q" for q
    using n by (cases "find (\<lambda>k. ?W k \<and> ?P k = q) ?ks") auto
  have old: "node_at fs1 q = node_at fs q"
    if "\<forall>k \<in> set ?ks. ?W k \<longrightarrow> ?P k \<noteq> q" for q
  proof -
    have "find (\<lambda>k. ?W k \<and> ?P k = q) ?ks = None" using that by (auto simp: find_None_iff)
    then show ?thesis using n by simp
  qed
  have unchanged: "readFileSync p fs1 = Inr x" if px: "readFileSync p fs = Inr x" for p x
  proof -
    have nx: "node_at fs p = Some (File x)" using px by (simp add: readFileSync_node)
    have "\<forall>k \<in> set ?ks. ?W k \<longrightarrow> ?P k \<noteq> p" using existing nx by auto
    then show ?thesis using old nx by (simp add: readFileSync_node)
  qed
  have written: "node_at fs1 (?P k) = Some (File (?D k))"
    if k: "k \<in> set ?ks" and wk: "?W k" for k
  proof -
    obtain k' where f: "find (\<lambda>j. ?W j \<and> ?P j = ?P k) ?ks = Some k'"
      using k wk by (cases "find (\<lambda>j. ?W j \<and> ?P j = ?P k) ?ks") (auto simp: find_None_iff)
    then have "k' \<in> set ?ks" "?P k' = ?P k" by (auto simp: find_Some_iff)
    then have "k' = k" using json_path_inj[of k' k "path_of d"] slash k by auto
    then show ?thesis using n f by simp
  qed
  \<comment> \<open>the second run\<close>
  have dir1: "node_at fs1 (path_of d) = Some Dir"
  proof -
    have "\<forall>k \<in> set ?ks. ?W k \<longrightarrow> ?P k \<noteq> path_of d"
      using slash path_join_plain_neq[OF plain_json] by blast
    then show ?thesis using old dir by simp
  qed
  obtain ns1 where listing1: "readdirSync d fs1 = Inr ns1"
    using readdirSync_exists[OF dne dir1] by blast
  let ?L1 = "filter is_json_file ns1"
  have parsed1: "\<exists>c. readFileSync (path_join (path_of d) m) fs1 = Inr (Descriptor c)"
    if m: "m \<in> set ?L1" for m
  proof -
    let ?q = "path_join (path_of d) m"
    have pm: "plain_name m" "node_at fs1 ?q \<noteq> None"
      using m readdirSync_iff[OF listing1, of m] by auto
    from either[of ?q] show ?thesis
    proof
      assume "\<exists>k. node_at fs1 ?q = Some (File (?D k))"
      then show ?thesis by (auto simp: readFileSync_node)
    next
      assume eq: "node_at fs1 ?q = node_at fs ?q"
      then have "m \<in> set ?L" using m pm by (simp add: readdirSync_iff[OF listing])
      then obtain c where "readFileSync ?q fs = Inr (Descriptor c)" using parsed by blast
      then show ?thesis using eq by (auto simp: readFileSync_node)
    qed
  qed
  obtain g' e' where lc: "loadConfig d fs1 (initial_Generator t') = (g', e')"
    by (cases "loadConfig d fs1 (initial_Generator t')")
  have "e' = None"
  proof (cases e')
    case None
    then show ?thesis .
  next
    case (Some err)
    from loadConfig_cases[OF lc] Some listing1 obtain m where "m \<in> set ?L1"
      "readFileSync (path_join (path_of d) m) fs1 = Inl err \<or>
       (\<exists>s. readFileSync (path_join (path_of d) m) fs1 = Inr (Text s) \<and> err = SyntaxError s)"
      by auto
    then show ?thesis using parsed1 by fastforce
  qed
  then have load1: "loadConfig d fs1 (initial_Generator t') = (g', None)" using lc by simp
  have "k = ''version'' \<or> declared g' k" if k: "k \<in> set ?ks" for k
  proof (cases "k = ''version''")
    case True
    then show ?thesis by simp
  next
    case nv: False
    have "\<exists>m \<in> set ?L1. \<exists>c. readFileSync (path_join (path_of d) m) fs1 = Inr (Descriptor c)
            \<and> GKey c = Present k"
    proof (cases "declared g k")
      case True
      then obtain m c where m: "m \<in> set ?L"
        "readFileSync (path_join (path_of d) m) fs = Inr (Descriptor c)" "GKey c = Present k"
        using declared_loadConfig[OF load listing] by blast
      have r: "readFileSync (path_join (path_of d) m) fs1 = Inr (Descriptor c)"
        using unchanged m(2) by simp
      have "plain_name m" using m(1) readdirSync_iff[OF listing, of m] by auto
      then have "m \<in> set ?L1"
        using m(1) r by (simp add: readdirSync_iff[OF listing1] readFileSync_node)
      then show ?thesis using r m(3) by blast
    next
      case False
      have kk: "k \<noteq> []" "CHR ''/'' \<notin> set k" using keys k by auto
      have r: "node_at fs1 (?P k) = Some (File (?D k))"
        using written[OF k] nv False by simp
      have "k @ ''.json'' \<in> set ?L1"
        using kk r by (simp add: readdirSync_iff[OF listing1] is_json_file_append plain_json)
      moreover have "GKey (defaultConfig k) = Present k" by (simp add: defaultConfig_def)
      ultimately show ?thesis using r by (auto simp: readFileSync_node)
    qed
    then show ?thesis using declared_loadConfig[OF load1 listing1] by simp
  qed
  then have "generateDefaultConfigs g' data fs1 = (fs1, None)"
    using generateDefaultConfigs_loop_all_declared[of ?ks g' fs1]
    by (simp add: generateDefaultConfigs_def)
  then show ?thesis using run unchanged load1 by (auto simp: generateDefaultConfigs_def)
qed

theorem scaffolding_idempotent_additive_witness:
  "loadConfig ''cfg''
      \<lparr>entries = [(path_of ''cfg'', Dir),
         (path_of ''cfg/items.json'', File (Descriptor (sample_config None)))], writes = []\<rparr>
      (initial_Generator ''out'')
     = (\<lparr>configMap = [(''items'', sample_config None)], targetDir = ''out'',
         configDir = Some ''cfg''\<rparr>, None)
   \<and> readdirSync ''cfg''
       \<lparr>entries = [(path_of ''cfg'', Dir),
         (path_of ''cfg/items.json'', File (Descriptor (sample_config None)))], writes = []\<rparr>
     = Inr [''items.json'']
   \<and> (\<exists>fs1. generateDefaultConfigs
          \<lparr>configMap = [(''items'', sample_config None)], targetDir = ''out'',
            configDir = Some ''cfg''\<rparr>
          [(''version'', ()), (''items'', ()), (''monsters'', ())]
          \<lparr>entries = [(path_of ''cfg'', Dir),
            (path_of ''cfg/items.json'', File (Descriptor (sample_config None)))],
            writes = []\<rparr> = (fs1, None)
        \<and> readFileSync (path_of ''cfg/items.json'') fs1 = Inr (Descriptor (sample_config None))
        \<and> writes fs1 = [(path_of ''cfg/monsters.json'', Descriptor (defaultConfig ''monsters''))]
        \<and> (\<exists>g'. loadConfig ''cfg'' fs1 (initial_Generator ''out'') = (g', None)
              \<and> generateDefaultConfigs g' [(''version'', ()), (''items'', ()), (''monsters'', ())]
                  fs1 = (fs1, None)))"
proof -
  let ?fs = "\<lparr>entries = [(path_of ''cfg'', Dir),
         (path_of ''cfg/items.json'', File (Descriptor (sample_config None)))], writes = []\<rparr>"
  let ?g = "\<lparr>configMap = [(''items'', sample_config None)], targetDir = ''out'',
             configDir = Some ''cfg''\<rparr>"
  let ?data = "[(''version'', ()), (''items'', ()), (''monsters'', ())]"
  have listing: "readdirSync ''cfg'' ?fs = Inr [''items.json'']"
    by code_simp
  have p: "path_join (path_of ''cfg'') ''items.json'' = path_of ''cfg/items.json''"
    by code_simp
  have r: "readFileSync (path_of ''cfg/items.json'') ?fs = Inr (Descriptor (sample_config None))"
    by code_simp
  have load: "loadConfig ''cfg'' ?fs (initial_Generator ''out'') = (?g, None)"
    by code_simp
  have j: "filter is_json_file [''items.json''] = [''items.json'']"
    by (simp add: is_json_file_def)
  have names: "\<forall>n \<in> set (filter is_json_file [''items.json'']). \<forall>c.
                  readFileSync (path_join (path_of ''cfg'') n) ?fs = Inr (Descriptor c) \<longrightarrow>
                  GKey c = Present (basename_json n)"
    unfolding j using r by (simp add: p basename_json_def sample_config_def)
  have keys: "\<forall>k \<in> fst ` set ?data. k \<noteq> [] \<and> CHR ''/'' \<notin> set k"
    by simp
  have w: "writes (fst (generateDefaultConfigs ?g ?data ?fs))
           = [(path_of ''cfg/monsters.json'', Descriptor (defaultConfig ''monsters''))]"
    by code_simp
  from scaffolding_idempotent_additive[OF load listing names keys, of "''out''"] obtain fs1 where
    f: "generateDefaultConfigs ?g ?data ?fs = (fs1, None)"
    and u: "\<forall>p x. readFileSync p ?fs = Inr x \<longrightarrow> readFileSync p fs1 = Inr x"
    and s: "\<exists>g'. loadConfig ''cfg'' fs1 (initial_Generator ''out'') = (g', None)
              \<and> generateDefaultConfigs g' ?data fs1 = (fs1, None)"
    by blast
  have "readFileSync (path_of ''cfg/items.json'') fs1 = Inr (Descriptor (sample_config None))"
    using u r by blast
  moreover have "writes fs1 = [(path_of ''cfg/monsters.json'', Descriptor (defaultConfig ''monsters''))]"
    using w f by simp
  ultimately show ?thesis using load listing f s by blast
qed

section \<open>One category of \<open>generate\<close>\<close>

lemma writes_mkdirs: "mkdirs a pre segs fs = Inr fs1 \<Longrightarrow> writes fs1 = writes fs"
proof (induction segs arbitrary: pre fs)
  case Nil
  then show ?case by simp
next
  case (Cons s segs)
  show ?case
  proof (cases "map_of (entries fs) (Path a (pre @ [s]))")
    case None
    then have "mkdirs a (pre @ [s]) segs
                 (fs\<lparr>entries := entries fs @ [(Path a (pre @ [s]), Dir)]\<rparr>) = Inr fs1"
      using Cons.prems by simp
    from Cons.IH[OF this] show ?thesis by simp
  next
    case (Some x)
    then show ?thesis using Cons by (cases x) auto
  qed
qed

lemma writes_ensureDirectory: "ensureDirectory p fs = Inr fs1 \<Longrightarrow> writes fs1 = writes fs"
  by (auto simp: ensureDirectory_def dest: writes_mkdirs)

lemma writes_prepare_directories:
  assumes "prepare_directories env k outDir tmpDir grouped fs = Inr fs1"
  shows "writes fs1 = writes fs @
           [(path_join (path_join tmpDir k) ''grouped.json'', Text (stringify_grouped env grouped))]"
  using assms
  by (auto simp: prepare_directories_def split: sum.splits
      dest!: writes_ensureDirectory writes_writeFileSync)

lemma write_modules_success:
  assumes "write_modules env config k outDir tmpDir analysis fs = (fs', None)"
  shows "\<exists>l. writes fs' = writes fs @ l \<and>
         (\<forall>val \<in> set analysis. \<exists>source formatted.
            generateTypes env val (groupKey config) config = Inr source \<and>
            format env source = Inr formatted \<and>
            (path_join tmpDir (k @ ''/'' @ category val @ ''_analysis.json''),
               Text (stringify_analysis env val)) \<in> set l \<and>
            (path_join outDir (category val @ ''.ts''), Text formatted) \<in> set l)"
  using assms
proof (induction analysis arbitrary: fs)
  case Nil
  then show ?case by simp
next
  case (Cons val rest)
  from Cons.prems obtain fs1 source formatted fs2 where
    w1: "writeFileSync (path_join tmpDir (k @ ''/'' @ category val @ ''_analysis.json''))
           (Text (stringify_analysis env val)) fs = Inr fs1"
    and g: "generateTypes env val (groupKey config) config = Inr source"
    and f: "format env source = Inr formatted"
    and w2: "writeFileSync (path_join outDir (category val @ ''.ts'')) (Text formatted) fs1
             = Inr fs2"
    and r: "write_modules env config k outDir tmpDir rest fs2 = (fs', None)"
    by (auto split: sum.splits)
  from Cons.IH[OF r] obtain l where l: "writes fs' = writes fs2 @ l"
    and rest: "\<forall>v \<in> set rest. \<exists>source formatted.
            generateTypes env v (groupKey config) config = Inr source \<and>
            format env source = Inr formatted \<and>
            (path_join tmpDir (k @ ''/'' @ category v @ ''_analysis.json''),
               Text (stringify_analysis env v)) \<in> set l \<and>
            (path_join outDir (category v @ ''.ts''), Text formatted) \<in> set l"
    by blast
  let ?l = "[(path_join tmpDir (k @ ''/'' @ category val @ ''_analysis.json''),
               Text (stringify_analysis env val)),
              (path_join outDir (category val @ ''.ts''), Text formatted)] @ l"
  have w: "writes fs' = writes fs @ ?l"
    using l writes_writeFileSync[OF w1] writes_writeFileSync[OF w2] by simp
  have "\<forall>v \<in> set (val # rest). \<exists>source formatted.
            generateTypes env v (groupKey config) config = Inr source \<and>
            format env source = Inr formatted \<and>
            (path_join tmpDir (k @ ''/'' @ category v @ ''_analysis.json''),
               Text (stringify_analysis env v)) \<in> set ?l \<and>
            (path_join outDir (category v @ ''.ts''), Text formatted) \<in> set ?l"
    using g f rest by auto
  then show ?case using w by blast
qed

lemma generate_config_disabled:
  "disabled_truthy config \<Longrightarrow> generate_config env target tmpDir data config st = (st, None)"
  by (simp add: generate_config_def)

lemma generate_config_success:
  assumes "\<not> disabled_truthy config"
    and "generate_config env target tmpDir data config st = (st', None)"
  obtains k grouped analysis fs1 fs2 formatted where
    "GKey config = Present k"
    "grouping env data config k = Inr grouped"
    "analyseAll env grouped config = Inr analysis"
    "prepare_directories env k (outDir_of target k) tmpDir grouped (fsys st) = Inr fs1"
    "write_modules env config k (outDir_of target k) tmpDir analysis fs1 = (fs2, None)"
    "format env (join nl (category_index env config k analysis) @ '';'') = Inr formatted"
    "writeFileSync (category_index_path target k) (Text formatted) fs2 = Inr (fsys st')"
    "gTypesIndex st' = gTypesIndex st @ gTypesIndex_lines env config k analysis"
    "gDataType st' = gDataType st @ gDataType_lines env config k analysis"
  using assms
  by (auto simp: generate_config_def Let_def outDir_of_def category_index_path_def
      split: field.splits sum.splits prod.splits option.splits)

lemma analysis_of_eq:
  "GKey config = Present k \<Longrightarrow> grouping env data config k = Inr grouped \<Longrightarrow>
   analyseAll env grouped config = Inr analysis \<Longrightarrow>
   GKey_of config = k \<and> analysis_of env data config = analysis"
  by (simp add: GKey_of_def analysis_of_def)

lemma read_after_write:
  "writeFileSync p c fs = Inr fs1 \<Longrightarrow> readFileSync p fs1 = Inr c"
  by (simp add: readFileSync_node node_at_writeFileSync)

lemma generate_config_round:
  fixes env :: "('v, 'z) collaborators"
  assumes "\<not> disabled_truthy config"
    and "generate_config env target tmpDir data config st = (st', None)"
  shows "GKey config = Present (GKey_of config) \<and>
         (\<exists>grouped. grouping env data config (GKey_of config) = Inr grouped \<and>
            analyseAll env grouped config = Inr (analysis_of env data config)) \<and>
         gTypesIndex st' = gTypesIndex st @
           gTypesIndex_lines env config (GKey_of config) (analysis_of env data config) \<and>
         gDataType st' = gDataType st @
           gDataType_lines env config (GKey_of config) (analysis_of env data config) \<and>
         (\<exists>l formatted.
            format env (join nl (category_index env config (GKey_of config)
                (analysis_of env data config)) @ '';'') = Inr formatted \<and>
            writes (fsys st') = writes (fsys st) @ l @
              [(category_index_path target (GKey_of config), Text formatted)] \<and>
            readFileSync (category_index_path target (GKey_of config)) (fsys st')
              = Inr (Text formatted) \<and>
            (\<forall>val \<in> set (analysis_of env data config). \<exists>source module.
               generateTypes env val (groupKey config) config = Inr source \<and>
               format env source = Inr module \<and>
               (path_join (outDir_of target (GKey_of config)) (category val @ ''.ts''),
                  Text module) \<in> set l))"
proof -
  from assms obtain k grouped analysis fs1 fs2 formatted where
    k: "GKey config = Present k" and g: "grouping env data config k = Inr grouped"
    and a: "analyseAll env grouped config = Inr analysis"
    and p: "prepare_directories env k (outDir_of target k) tmpDir grouped (fsys st) = Inr fs1"
    and m: "write_modules env config k (outDir_of target k) tmpDir analysis fs1 = (fs2, None)"
    and f: "format env (join nl (category_index env config k analysis) @ '';'') = Inr formatted"
    and w: "writeFileSync (category_index_path target k) (Text formatted) fs2 = Inr (fsys st')"
    and ti: "gTypesIndex st' = gTypesIndex st @ gTypesIndex_lines env config k analysis"
    and dt: "gDataType st' = gDataType st @ gDataType_lines env config k analysis"
    by (rule generate_config_success)
  have e: "GKey_of config = k" "analysis_of env data config = analysis"
    using analysis_of_eq[OF k g a] by simp_all
  from write_modules_success[OF m] obtain l2 where l2: "writes fs2 = writes fs1 @ l2"
    and mods: "\<forall>val \<in> set analysis. \<exists>source module.
            generateTypes env val (groupKey config) config = Inr source \<and>
            format env source = Inr module \<and>
            (path_join tmpDir (k @ ''/'' @ category val @ ''_analysis.json''),
               Text (stringify_analysis env val)) \<in> set l2 \<and>
            (path_join (outDir_of target k) (category val @ ''.ts''), Text module) \<in> set l2"
    by blast
  let ?l = "[(path_join (path_join tmpDir k) ''grouped.json'',
              Text (stringify_grouped env grouped))] @ l2"
  have log: "writes (fsys st') = writes (fsys st) @ ?l @
               [(category_index_path target k, Text formatted)]"
    using writes_writeFileSync[OF w] l2 writes_prepare_directories[OF p] by simp
  have mods': "\<forall>val \<in> set analysis. \<exists>source module.
            generateTypes env val (groupKey config) config = Inr source \<and>
            format env source = Inr module \<and>
            (path_join (outDir_of target k) (category val @ ''.ts''), Text module) \<in> set ?l"
    using mods by fastforce
  have r: "readFileSync (category_index_path target k) (fsys st') = Inr (Text formatted)"
    by (rule read_after_write[OF w])
  show ?thesis
    unfolding e using k g a ti dt f log r mods' by blast
qed

lemma generate_loop_append:
  "generate_loop env target tmpDir data (xs @ ys) st = (st', None) \<Longrightarrow>
   \<exists>st1. generate_loop env target tmpDir data xs st = (st1, None) \<and>
         generate_loop env target tmpDir data ys st1 = (st', None)"
proof (induction xs arbitrary: st)
  case Nil
  then show ?case by simp
next
  case (Cons x xs)
  then show ?case by (auto split: prod.splits option.splits)
qed

lemma generate_loop_Cons:
  "generate_loop env target tmpDir data (x # xs) st = (st', None) \<Longrightarrow>
   \<exists>st1. generate_config env target tmpDir data x st = (st1, None) \<and>
         generate_loop env target tmpDir data xs st1 = (st', None)"
  by (auto split: prod.splits option.splits)

lemma generate_loop_lines:
  fixes env :: "('v, 'z) collaborators"
  assumes "generate_loop env target tmpDir data configs st = (st', None)"
  shows "gTypesIndex st' = gTypesIndex st @
           concat (map (\<lambda>c. gTypesIndex_lines env c (GKey_of c) (analysis_of env data c))
                     (filter (\<lambda>c. \<not> disabled_truthy c) configs)) \<and>
         gDataType st' = gDataType st @
           concat (map (\<lambda>c. gDataType_lines env c (GKey_of c) (analysis_of env data c))
                     (filter (\<lambda>c. \<not> disabled_truthy c) configs)) \<and>
         (\<exists>l. writes (fsys st') = writes (fsys st) @ l)"
  using assms
proof (induction configs arbitrary: st)
  case Nil
  then show ?case by simp
next
  case (Cons c rest)
  from generate_loop_Cons[OF Cons.prems] obtain st1 where
    s1: "generate_config env target tmpDir data c st = (st1, None)"
    and r: "generate_loop env target tmpDir data rest st1 = (st', None)"
    by blast
  note ih = Cons.IH[OF r]
  show ?case
  proof (cases "disabled_truthy c")
    case True
    then have "st1 = st" using s1 by (simp add: generate_config_disabled)
    then show ?thesis using ih True by simp
  next
    case False
    from generate_config_round[OF False s1] ih show ?thesis
      using False by (auto simp: append.assoc)
  qed
qed

lemma generate_loop_round:
  fixes env :: "('v, 'z) collaborators"
  assumes "generate_loop env target tmpDir data configs st = (st', None)"
    and "config \<in> set configs" and "\<not> disabled_truthy config"
  shows "GKey config = Present (GKey_of config) \<and>
         (\<exists>grouped. grouping env data config (GKey_of config) = Inr grouped \<and>
            analyseAll env grouped config = Inr (analysis_of env data config)) \<and>
         (\<exists>formatted.
            format env (join nl (category_index env config (GKey_of config)
                (analysis_of env data config)) @ '';'') = Inr formatted \<and>
            (category_index_path target (GKey_of config), Text formatted)
              \<in> set (writes (fsys st'))) \<and>
         (\<forall>val \<in> set (analysis_of env data config). \<exists>source module.
            generateTypes env val (groupKey config) config = Inr source \<and>
            format env source = Inr module \<and>
            (path_join (outDir_of target (GKey_of config)) (category val @ ''.ts''),
               Text module) \<in> set (writes (fsys st')))"
proof -
  from assms(2) obtain xs ys where sp: "configs = xs @ config # ys" by (auto dest: split_list)
  from generate_loop_append[OF assms(1)[unfolded sp]] obtain st1 where
    "generate_loop env target tmpDir data (config # ys) st1 = (st', None)" by blast
  from generate_loop_Cons[OF this] obtain st2 where
    c: "generate_config env target tmpDir data config st1 = (st2, None)"
    and r: "generate_loop env target tmpDir data ys st2 = (st', None)" by blast
  from generate_loop_lines[OF r] obtain l' where
    l': "writes (fsys st') = writes (fsys st2) @ l'" by blast
  from generate_config_round[OF assms(3) c] obtain l formatted where
    k: "GKey config = Present (GKey_of config)"
    and g: "\<exists>grouped. grouping env data config (GKey_of config) = Inr grouped \<and>
            analyseAll env grouped config = Inr (analysis_of env data config)"
    and f: "format env (join nl (category_index env config (GKey_of config)
                (analysis_of env data config)) @ '';'') = Inr formatted"
    and w: "writes (fsys st2) = writes (fsys st1) @ l @
              [(category_index_path target (GKey_of config), Text formatted)]"
    and m: "\<forall>val \<in> set (analysis_of env data config). \<exists>source module.
               generateTypes env val (groupKey config) config = Inr source \<and>
               format env source = Inr module \<and>
               (path_join (outDir_of target (GKey_of config)) (category val @ ''.ts''),
                  Text module) \<in> set l"
    by blast
  have i: "(category_index_path target (GKey_of config), Text formatted)
             \<in> set (writes (fsys st'))"
    unfolding l' w by simp
  have m': "\<forall>val \<in> set (analysis_of env data config). \<exists>source module.
               generateTypes env val (groupKey config) config = Inr source \<and>
               format env source = Inr module \<and>
               (path_join (outDir_of target (GKey_of config)) (category val @ ''.ts''),
                  Text module) \<in> set (writes (fsys st'))"
    using m unfolding l' w by fastforce
  show ?thesis using k g f i m' by blast
qed

lemma generate_success:
  fixes env :: "('v, 'z) collaborators"
  assumes "generate env g data tmpDir fs = (fs', None)"
  obtains fs0 st formatted where
    "generateDefaultConfigs g data fs = (fs0, None)"
    "generate_loop env (targetDir g) tmpDir data (map snd (configMap g))
       \<lparr>gTypesIndex = [], gDataType = [nl @ ''export type GData = {''], fsys = fs0\<rparr>
     = (st, None)"
    "format env (join nl (gTypesIndex st @ [join nl (gDataType st @ [''}''])])) = Inr formatted"
    "writeFileSync (global_index_path (targetDir g)) (Text formatted) (fsys st) = Inr fs'"
  using assms
  by (auto simp: generate_def global_index_path_def
      split: prod.splits option.splits sum.splits)

lemma gData_shape_at_grouped:
  assumes "groupKey_truthy config = Some gk"
  shows "gData_shape_at (gDataType_lines env config k analysis) t
         = map (\<lambda>val. ''G'' @ capitalize env (category val)) analysis"
  using assms by (simp add: gData_shape_at_def gDataType_lines_def butlast_append comp_def)

lemma sample_enabled: "\<not> disabled_truthy (sample_config gk)"
  by (simp add: disabled_truthy_def sample_config_def)

lemma sample_grouped: "groupKey_truthy (sample_config (Some ''type'')) = Some ''type''"
  by (simp add: groupKey_truthy_def sample_config_def)

lemma sample_run:
  "generate_config sample_collaborators ''out'' sample_tmp sample_data
     (sample_config (Some ''type'')) sample_state
   = (fst (generate_config sample_collaborators ''out'' sample_tmp sample_data
        (sample_config (Some ''type'')) sample_state), None)"
  by code_simp



text \<open>
  C2, as the spec states it, fails. In the end-to-end example the key \<open>a\<close> belongs to
  the group \<open>weapon\<close>, yet the aggregate type does not give it the shape of that group
  alone.
\<close>

theorem aggregate_not_discriminated_counterexample:
  "\<not> (gData_shape_at
        (gDataType (fst (generate_config sample_collaborators ''out'' sample_tmp sample_data
                           (sample_config (Some ''type'')) sample_state))) ''a''
      = [''GWeapon''])"
  by code_simp

text \<open>
  C2, amended. For every enabled grouped category that is generated without error, the
  contribution to \<open>GData\<close> is the mapped type over the category-level key union whose value
  is the union of the shapes of all groups, one alternative per analysis result; every key
  gets the same alternatives.
\<close>

theorem aggregate_maps_every_key_to_all_shapes:
  assumes "\<not> disabled_truthy config" and "groupKey_truthy config = Some gk"
    and "generate_config env target tmpDir data config st = (st', None)"
  shows "\<exists>k grouped analysis.
           GKey config = Present k \<and> grouping env data config k = Inr grouped \<and>
           analyseAll env grouped config = Inr analysis \<and>
           gDataType st' = gDataType st @
             [k @ '': {[T in '' @ capitalize env k @ ''Key]: ''] @
             map (\<lambda>val. ''| G'' @ capitalize env (category val)) analysis @ [''};''] \<and>
           (\<forall>t. gData_shape_at (drop (length (gDataType st)) (gDataType st')) t
                = map (\<lambda>val. ''G'' @ capitalize env (category val)) analysis)"
proof -
  from assms(1,3) obtain k grouped analysis where
    k: "GKey config = Present k" and g: "grouping env data config k = Inr grouped"
    and a: "analyseAll env grouped config = Inr analysis"
    and d: "gDataType st' = gDataType st @ gDataType_lines env config k analysis"
    by (rule generate_config_success)
  have l: "gDataType_lines env config k analysis =
             [k @ '': {[T in '' @ capitalize env k @ ''Key]: ''] @
             map (\<lambda>val. ''| G'' @ capitalize env (category val)) analysis @ [''};'']"
    using assms(2) by (simp add: gDataType_lines_def)
  have s: "\<forall>t. gData_shape_at (drop (length (gDataType st)) (gDataType st')) t
                = map (\<lambda>val. ''G'' @ capitalize env (category val)) analysis"
    by (simp add: d gData_shape_at_grouped[OF assms(2)])
  show ?thesis using k g a d l s by (metis append_assoc)
qed

theorem aggregate_maps_every_key_to_all_shapes_witness:
  "\<not> disabled_truthy (sample_config (Some ''type'')) \<and>
   groupKey_truthy (sample_config (Some ''type'')) = Some ''type'' \<and>
   snd (generate_config sample_collaborators ''out'' sample_tmp sample_data
     (sample_config (Some ''type'')) sample_state) = None \<and>
   (\<forall>t. gData_shape_at (drop (length (gDataType sample_state))
           (gDataType (fst (generate_config sample_collaborators ''out'' sample_tmp sample_data
              (sample_config (Some ''type'')) sample_state)))) t
        = [''GWeapon'', ''GShield''])"
proof -
  have v: "gData_shape_at (drop (length (gDataType sample_state))
           (gDataType (fst (generate_config sample_collaborators ''out'' sample_tmp sample_data
              (sample_config (Some ''type'')) sample_state)))) t
        = [''GWeapon'', ''GShield'']" for t
    unfolding gData_shape_at_def by code_simp
  have n: "snd (generate_config sample_collaborators ''out'' sample_tmp sample_data
     (sample_config (Some ''type'')) sample_state) = None"
    by code_simp
  from aggregate_maps_every_key_to_all_shapes[OF sample_enabled sample_grouped sample_run]
  show ?thesis using sample_enabled sample_grouped n v by blast
qed

section \<open>The whole run of \<open>generate\<close>\<close>

lemma key_union_distinct:
  "distinct (map (\<lambda>val. ''| '' @ category val @ ''Key'') analysis)
   \<longleftrightarrow> distinct (map category analysis)"
proof -
  have "map (\<lambda>val. ''| '' @ category val @ ''Key'') analysis
        = map (\<lambda>c. ''| '' @ c @ ''Key'') (map category analysis)"
    by (simp add: comp_def)
  moreover have "inj (\<lambda>c :: string. ''| '' @ c @ ''Key'')"
    by (rule injI) simp
  ultimately show ?thesis by (simp only: distinct_map) (auto intro: inj_on_subset)
qed

lemma generate_round:
  fixes env :: "('v, 'z) collaborators"
  assumes "generate env g data tmpDir fs = (fs', None)"
    and "config \<in> snd ` set (configMap g)" and "\<not> disabled_truthy config"
  shows "GKey config = Present (GKey_of config) \<and>
         (\<exists>grouped. grouping env data config (GKey_of config) = Inr grouped \<and>
            analyseAll env grouped config = Inr (analysis_of env data config)) \<and>
         (\<exists>formatted.
            format env (join nl (category_index env config (GKey_of config)
                (analysis_of env data config)) @ '';'') = Inr formatted \<and>
            (category_index_path (targetDir g) (GKey_of config), Text formatted)
              \<in> set (writes fs')) \<and>
         (\<forall>val \<in> set (analysis_of env data config). \<exists>source module.
            generateTypes env val (groupKey config) config = Inr source \<and>
            format env source = Inr module \<and>
            (path_join (outDir_of (targetDir g) (GKey_of config)) (category val @ ''.ts''),
               Text module) \<in> set (writes fs'))"
proof -
  from assms(1) obtain fs0 st formatted where
    l: "generate_loop env (targetDir g) tmpDir data (map snd (configMap g))
          \<lparr>gTypesIndex = [], gDataType = [nl @ ''export type GData = {''], fsys = fs0\<rparr>
        = (st, None)"
    and w: "writeFileSync (global_index_path (targetDir g)) (Text formatted) (fsys st) = Inr fs'"
    by (rule generate_success)
  have c: "config \<in> set (map snd (configMap g))" using assms(2) by simp
  have sub: "set (writes (fsys st)) \<subseteq> set (writes fs')"
    using writes_writeFileSync[OF w] by auto
  from generate_loop_round[OF l c assms(3)] sub show ?thesis by blast
qed


text \<open>
  C4, as the spec states it, fails. The config renames both groups of the example,
  \<open>weapon\<close> and \<open>shield\<close>, to \<open>Gear\<close>; \<open>generate\<close> ends without error and the
  category-level key union in the per-category index lists the member \<open>GearKey\<close> twice.
\<close>

theorem category_key_union_counterexample:
  "generate sample_collaborators
     \<lparr>configMap = [(''items'', (sample_config (Some ''type''))
         \<lparr>nameOverride := Present [(''weapon'', ''Gear''), (''shield'', ''Gear'')]\<rparr>)],
       targetDir = ''out'', configDir = None\<rparr> sample_data sample_tmp sample_fs
   = (fst (generate sample_collaborators
     \<lparr>configMap = [(''items'', (sample_config (Some ''type''))
         \<lparr>nameOverride := Present [(''weapon'', ''Gear''), (''shield'', ''Gear'')]\<rparr>)],
       targetDir = ''out'', configDir = None\<rparr> sample_data sample_tmp sample_fs), None)
   \<and> readFileSync (category_index_path ''out'' ''items'')
       (fst (generate sample_collaborators
     \<lparr>configMap = [(''items'', (sample_config (Some ''type''))
         \<lparr>nameOverride := Present [(''weapon'', ''Gear''), (''shield'', ''Gear'')]\<rparr>)],
       targetDir = ''out'', configDir = None\<rparr> sample_data sample_tmp sample_fs))
     = Inr (Text (join nl
         [''export * from '' @ sq @ ''./Gear'' @ sq @ '';'',
          ''export * from '' @ sq @ ''./Gear'' @ sq @ '';'',
          [],
          ''import type { GearKey, GGear } from '' @ sq @ ''./Gear'' @ sq @ '';'',
          ''import type { GearKey, GGear } from '' @ sq @ ''./Gear'' @ sq @ '';'',
          nl @ ''export type ItemsKey ='',
          ''| GearKey'', ''| GearKey'', '';''] @ '';''))"
  by code_simp

text \<open>
  C4, amended. For every enabled category with a \<open>groupKey\<close>, in a run of \<open>generate\<close>
  that ends without error, the per-category index handed to the formatter and written
  to \<open>index.ts\<close> declares the category-level key union with exactly one member
  \<open>| <category>Key\<close> per analysis result, in the order of the analysis. \<open>generate\<close> removes
  no duplicates: the members are pairwise different exactly when the names of the
  analysis results are.
\<close>

theorem category_key_union_lists_every_group:
  assumes "generate env g data tmpDir fs = (fs', None)"
    and "config \<in> snd ` set (configMap g)"
    and "\<not> disabled_truthy config" and "groupKey_truthy config = Some gk"
  shows "\<exists>k grouped analysis formatted.
           GKey config = Present k \<and> grouping env data config k = Inr grouped \<and>
           analyseAll env grouped config = Inr analysis \<and>
           format env (join nl
              (index_exports analysis @ [[]] @ index_imports analysis @
               [nl @ ''export type '' @ capitalize env k @ ''Key =''] @
               map (\<lambda>val. ''| '' @ category val @ ''Key'') analysis @ ['';'']) @ '';'')
             = Inr formatted \<and>
           (category_index_path (targetDir g) k, Text formatted) \<in> set (writes fs') \<and>
           (distinct (map (\<lambda>val. ''| '' @ category val @ ''Key'') analysis)
            \<longleftrightarrow> distinct (map category analysis))"
proof -
  let ?k = "GKey_of config" and ?a = "analysis_of env data config"
  from generate_round[OF assms(1-3)] obtain grouped formatted where
    k: "GKey config = Present ?k"
    and g: "grouping env data config ?k = Inr grouped"
    and a: "analyseAll env grouped config = Inr ?a"
    and f: "format env (join nl (category_index env config ?k ?a) @ '';'') = Inr formatted"
    and w: "(category_index_path (targetDir g) ?k, Text formatted) \<in> set (writes fs')"
    by blast
  have i: "category_index env config ?k ?a =
             index_exports ?a @ [[]] @ index_imports ?a @
             [nl @ ''export type '' @ capitalize env ?k @ ''Key =''] @
             map (\<lambda>val. ''| '' @ category val @ ''Key'') ?a @ ['';'']"
    using assms(4) by (simp add: category_index_def index_key_union_def)
  show ?thesis
    using k g a w f[unfolded i] key_union_distinct[of ?a] by blast
qed

lemma sample_generate_run:
  "generate sample_collaborators
     \<lparr>configMap = [(''items'', sample_config (Some ''type''))], targetDir = ''out'',
       configDir = None\<rparr> sample_data sample_tmp sample_fs
   = (fst (generate sample_collaborators
     \<lparr>configMap = [(''items'', sample_config (Some ''type''))], targetDir = ''out'',
       configDir = None\<rparr> sample_data sample_tmp sample_fs), None)"
  by code_simp

theorem category_key_union_lists_every_group_witness:
  "generate sample_collaborators
     \<lparr>configMap = [(''items'', sample_config (Some ''type''))], targetDir = ''out'',
       configDir = None\<rparr> sample_data sample_tmp sample_fs
   = (fst (generate sample_collaborators
     \<lparr>configMap = [(''items'', sample_config (Some ''type''))], targetDir = ''out'',
       configDir = None\<rparr> sample_data sample_tmp sample_fs), None) \<and>
   (\<exists>k grouped analysis formatted.
      GKey (sample_config (Some ''type'')) = Present k \<and>
      grouping sample_collaborators sample_data (sample_config (Some ''type'')) k = Inr grouped \<and>
      analyseAll sample_collaborators grouped (sample_config (Some ''type'')) = Inr analysis \<and>
      format sample_collaborators (join nl
         (index_exports analysis @ [[]] @ index_imports analysis @
          [nl @ ''export type '' @ capitalize sample_collaborators k @ ''Key =''] @
          map (\<lambda>val. ''| '' @ category val @ ''Key'') analysis @ ['';'']) @ '';'')
        = Inr formatted \<and>
      (category_index_path ''out'' k, Text formatted)
        \<in> set (writes (fst (generate sample_collaborators
             \<lparr>configMap = [(''items'', sample_config (Some ''type''))], targetDir = ''out'',
               configDir = None\<rparr> sample_data sample_tmp sample_fs))) \<and>
      (distinct (map (\<lambda>val. ''| '' @ category val @ ''Key'') analysis)
       \<longleftrightarrow> distinct (map category analysis)))"
proof -
  let ?g = "\<lparr>configMap = [(''items'', sample_config (Some ''type''))], targetDir = ''out'',
             configDir = None\<rparr>"
  have m: "sample_config (Some ''type'') \<in> snd ` set (configMap ?g)" by simp
  from category_key_union_lists_every_group
    [OF sample_generate_run m sample_enabled sample_grouped]
  show ?thesis using sample_generate_run by simp
qed










lemma path_join_plain_inj_left:
  assumes "plain_name n" and "path_join p n = path_join q n"
  shows "p = q"
proof -
  from assms have "Path (absolute p) (segments p @ [n]) = Path (absolute q) (segments q @ [n])"
    by (simp add: path_join_plain)
  then have "absolute p = absolute q" "segments p = segments q" by simp_all
  then show ?thesis by (cases p; cases q) simp
qed

lemma category_index_path_neq:
  assumes "outDir_of target k \<noteq> path_join (path_of target) ''GTypes''"
  shows "category_index_path target k \<noteq> global_index_path target"
  using assms path_join_plain_inj_left[OF plain_names(2)]
  unfolding category_index_path_def global_index_path_def by blast

text \<open>
  C9, as the spec states it, fails in its last part. Two descriptors, \<open>a.json\<close>
  (grouped by \<open>type\<close>) and \<open>b.json\<close> (not grouped), declare the \<open>GKey\<close> \<open>items\<close>. Both
  are loaded and generated into \<open>GTypes/items\<close>; at the end of the run the index is
  that of the second config, but the modules \<open>weapon.ts\<close> and \<open>shield.ts\<close> of the first
  config are still there: its output is not replaced.
\<close>

theorem same_GKey_counterexample:
  "loadConfig ''cfg''
      \<lparr>entries = entries sample_fs @ [(path_of ''cfg'', Dir),
         (path_of ''cfg/a.json'', File (Descriptor (sample_config (Some ''type'')))),
         (path_of ''cfg/b.json'', File (Descriptor (sample_config None)))], writes = []\<rparr>
      (initial_Generator ''out'')
     = (\<lparr>configMap = [(''a'', sample_config (Some ''type'')), (''b'', sample_config None)],
         targetDir = ''out'', configDir = Some ''cfg''\<rparr>, None)
   \<and> snd (generate sample_collaborators
      \<lparr>configMap = [(''a'', sample_config (Some ''type'')), (''b'', sample_config None)],
        targetDir = ''out'', configDir = Some ''cfg''\<rparr> sample_data sample_tmp
      \<lparr>entries = entries sample_fs @ [(path_of ''cfg'', Dir),
         (path_of ''cfg/a.json'', File (Descriptor (sample_config (Some ''type'')))),
         (path_of ''cfg/b.json'', File (Descriptor (sample_config None)))], writes = []\<rparr>)
     = None
   \<and> map (\<lambda>p. readFileSync (path_of p)
        (fst (generate sample_collaborators
          \<lparr>configMap = [(''a'', sample_config (Some ''type'')), (''b'', sample_config None)],
            targetDir = ''out'', configDir = Some ''cfg''\<rparr> sample_data sample_tmp
          \<lparr>entries = entries sample_fs @ [(path_of ''cfg'', Dir),
             (path_of ''cfg/a.json'', File (Descriptor (sample_config (Some ''type'')))),
             (path_of ''cfg/b.json'', File (Descriptor (sample_config None)))],
            writes = []\<rparr>)))
       [''out/GTypes/items/weapon.ts'', ''out/GTypes/items/shield.ts'',
        ''out/GTypes/items/items.ts'', ''out/GTypes/items/index.ts'']
     = [Inr (Text ''// weapon''), Inr (Text ''// shield''), Inr (Text ''// items''),
        Inr (Text (''export * from '' @ sq @ ''./items'' @ sq @ '';;''))]"
  by code_simp

text \<open>
  C9, amended. When two different descriptor files of the directory declare the same
  \<open>GKey\<close> \<open>k\<close>, \<open>loadConfig\<close> returns without error with both configs in the map, under
  their two different file names. When both are enabled, the first is iterated before
  the second, the second is the last config of the map, and \<open>GTypes/k\<close> is not the
  directory \<open>GTypes\<close> itself, a run of \<open>generate\<close> that ends without error has written
  the modules and then the index of the first config into \<open>GTypes/k\<close>, later the modules
  and then the index of the second config into the same directory, and last the global
  index; at the end \<open>GTypes/k/index.ts\<close> holds the index of the second config.
\<close>

theorem same_GKey_later_replaces_index:
  fixes env :: "('v, 'z) collaborators"
  assumes load: "loadConfig d fs0 (initial_Generator target) = (g, None)"
    and listing: "readdirSync d fs0 = Inr ns"
    and f1: "f1 \<in> set (filter is_json_file ns)" and f2: "f2 \<in> set (filter is_json_file ns)"
    and diff: "f1 \<noteq> f2"
    and r1: "readFileSync (path_join (path_of d) f1) fs0 = Inr (Descriptor c1)"
    and r2: "readFileSync (path_join (path_of d) f2) fs0 = Inr (Descriptor c2)"
    and k1: "GKey c1 = Present k" and k2: "GKey c2 = Present k"
    and e1: "\<not> disabled_truthy c1" and e2: "\<not> disabled_truthy c2"
    and order: "map snd (configMap g) = pre @ [c1] @ mid @ [c2]"
    and dirs: "outDir_of (targetDir g) k \<noteq> path_join (path_of (targetDir g)) ''GTypes''"
    and run: "generate env g data tmpDir fs = (fs', None)"
  shows "map_of (configMap g) (basename_json f1) = Some c1 \<and>
         map_of (configMap g) (basename_json f2) = Some c2 \<and>
         basename_json f1 \<noteq> basename_json f2 \<and>
         (\<exists>grouped1 analysis1 index1 grouped2 analysis2 index2 global l0 l1.
            grouping env data c1 k = Inr grouped1 \<and>
            analyseAll env grouped1 c1 = Inr analysis1 \<and>
            format env (join nl (category_index env c1 k analysis1) @ '';'') = Inr index1 \<and>
            grouping env data c2 k = Inr grouped2 \<and>
            analyseAll env grouped2 c2 = Inr analysis2 \<and>
            format env (join nl (category_index env c2 k analysis2) @ '';'') = Inr index2 \<and>
            writes fs' = l0 @ [(category_index_path (targetDir g) k, Text index1)] @ l1 @
                           [(category_index_path (targetDir g) k, Text index2),
                            (global_index_path (targetDir g), Text global)] \<and>
            (\<forall>val \<in> set analysis1. \<exists>source module.
               generateTypes env val (groupKey c1) c1 = Inr source \<and>
               format env source = Inr module \<and>
               (path_join (outDir_of (targetDir g) k) (category val @ ''.ts''), Text module)
                 \<in> set l0) \<and>
            (\<forall>val \<in> set analysis2. \<exists>source module.
               generateTypes env val (groupKey c2) c2 = Inr source \<and>
               format env source = Inr module \<and>
               (path_join (outDir_of (targetDir g) k) (category val @ ''.ts''), Text module)
                 \<in> set l1) \<and>
            readFileSync (category_index_path (targetDir g) k) fs' = Inr (Text index2))"
proof -
  let ?t = "targetDir g"
  let ?idx = "category_index_path ?t k"
  \<comment> \<open>loading\<close>
  have l: "loadConfig_loop d fs0 (filter is_json_file ns)
             ((initial_Generator target)\<lparr>configDir := Some d\<rparr>) = (g, None)"
    using load listing by (simp add: loadConfig_def)
  note db = json_listing_distinct_basenames[OF listing]
  have m1: "map_of (configMap g) (basename_json f1) = Some c1"
    using loop_forward[OF l db f1] r1 by auto
  have m2: "map_of (configMap g) (basename_json f2) = Some c2"
    using loop_forward[OF l db f2] r2 by auto
  have bn: "basename_json f1 \<noteq> basename_json f2"
    using basename_json_inj[of f1 f2] f1 f2 diff by auto
  \<comment> \<open>generating\<close>
  from run obtain fsa st global where
    lp: "generate_loop env ?t tmpDir data (map snd (configMap g))
          \<lparr>gTypesIndex = [], gDataType = [nl @ ''export type GData = {''], fsys = fsa\<rparr>
        = (st, None)"
    and w: "writeFileSync (global_index_path ?t) (Text global) (fsys st) = Inr fs'"
    by (rule generate_success)
  let ?st0 = "\<lparr>gTypesIndex = [], gDataType = [nl @ ''export type GData = {''], fsys = fsa\<rparr>"
  from generate_loop_append[OF lp[unfolded order]] obtain sa where
    la: "generate_loop env ?t tmpDir data pre ?st0 = (sa, None)"
    and lb: "generate_loop env ?t tmpDir data ([c1] @ mid @ [c2]) sa = (st, None)" by blast
  from generate_loop_Cons[of env ?t tmpDir data c1 "mid @ [c2]" sa st] lb obtain sb where
    g1: "generate_config env ?t tmpDir data c1 sa = (sb, None)"
    and lc: "generate_loop env ?t tmpDir data (mid @ [c2]) sb = (st, None)" by auto
  from generate_loop_append[OF lc] obtain sc where
    lm: "generate_loop env ?t tmpDir data mid sb = (sc, None)"
    and ld: "generate_loop env ?t tmpDir data [c2] sc = (st, None)" by blast
  from generate_loop_Cons[OF ld] have g2: "generate_config env ?t tmpDir data c2 sc = (st, None)"
    by auto
  have ko1: "GKey_of c1 = k" and ko2: "GKey_of c2 = k" using k1 k2 by (simp_all add: GKey_of_def)
  from generate_config_round[OF e1 g1] obtain grouped1 la1 index1 where
    gr1: "grouping env data c1 k = Inr grouped1"
    and an1: "analyseAll env grouped1 c1 = Inr (analysis_of env data c1)"
    and fm1: "format env (join nl (category_index env c1 k (analysis_of env data c1)) @ '';'')
              = Inr index1"
    and wr1: "writes (fsys sb) = writes (fsys sa) @ la1 @ [(?idx, Text index1)]"
    and md1: "\<forall>val \<in> set (analysis_of env data c1). \<exists>source module.
               generateTypes env val (groupKey c1) c1 = Inr source \<and>
               format env source = Inr module \<and>
               (path_join (outDir_of ?t k) (category val @ ''.ts''), Text module) \<in> set la1"
    unfolding ko1 by blast
  from generate_config_round[OF e2 g2] obtain grouped2 la2 index2 where
    gr2: "grouping env data c2 k = Inr grouped2"
    and an2: "analyseAll env grouped2 c2 = Inr (analysis_of env data c2)"
    and fm2: "format env (join nl (category_index env c2 k (analysis_of env data c2)) @ '';'')
              = Inr index2"
    and wr2: "writes (fsys st) = writes (fsys sc) @ la2 @ [(?idx, Text index2)]"
    and rd2: "readFileSync ?idx (fsys st) = Inr (Text index2)"
    and md2: "\<forall>val \<in> set (analysis_of env data c2). \<exists>source module.
               generateTypes env val (groupKey c2) c2 = Inr source \<and>
               format env source = Inr module \<and>
               (path_join (outDir_of ?t k) (category val @ ''.ts''), Text module) \<in> set la2"
    unfolding ko2 by blast
  from generate_loop_lines[OF lm] obtain lmid where
    wm: "writes (fsys sc) = writes (fsys sb) @ lmid" by blast
  let ?l0 = "writes (fsys sa) @ la1" and ?l1 = "lmid @ la2"
  have log: "writes fs' = ?l0 @ [(?idx, Text index1)] @ ?l1 @
               [(?idx, Text index2), (global_index_path ?t, Text global)]"
    using writes_writeFileSync[OF w] wr2 wm wr1 by simp
  have md1': "\<forall>val \<in> set (analysis_of env data c1). \<exists>source module.
               generateTypes env val (groupKey c1) c1 = Inr source \<and>
               format env source = Inr module \<and>
               (path_join (outDir_of ?t k) (category val @ ''.ts''), Text module) \<in> set ?l0"
    using md1 by fastforce
  have md2': "\<forall>val \<in> set (analysis_of env data c2). \<exists>source module.
               generateTypes env val (groupKey c2) c2 = Inr source \<and>
               format env source = Inr module \<and>
               (path_join (outDir_of ?t k) (category val @ ''.ts''), Text module) \<in> set ?l1"
    using md2 by fastforce
  have final: "readFileSync ?idx fs' = Inr (Text index2)"
    using rd2 category_index_path_neq[OF dirs]
    by (simp add: readFileSync_def node_at_writeFileSync[OF w])
  have "\<exists>grouped1 analysis1 index1 grouped2 analysis2 index2 global l0 l1.
            grouping env data c1 k = Inr grouped1 \<and>
            analyseAll env grouped1 c1 = Inr analysis1 \<and>
            format env (join nl (category_index env c1 k analysis1) @ '';'') = Inr index1 \<and>
            grouping env data c2 k = Inr grouped2 \<and>
            analyseAll env grouped2 c2 = Inr analysis2 \<and>
            format env (join nl (category_index env c2 k analysis2) @ '';'') = Inr index2 \<and>
            writes fs' = l0 @ [(?idx, Text index1)] @ l1 @
                           [(?idx, Text index2), (global_index_path ?t, Text global)] \<and>
            (\<forall>val \<in> set analysis1. \<exists>source module.
               generateTypes env val (groupKey c1) c1 = Inr source \<and>
               format env source = Inr module \<and>
               (path_join (outDir_of ?t k) (category val @ ''.ts''), Text module) \<in> set l0) \<and>
            (\<forall>val \<in> set analysis2. \<exists>source module.
               generateTypes env val (groupKey c2) c2 = Inr source \<and>
               format env source = Inr module \<and>
               (path_join (outDir_of ?t k) (category val @ ''.ts''), Text module) \<in> set l1) \<and>
            readFileSync ?idx fs' = Inr (Text index2)"
    using gr1 an1 fm1 gr2 an2 fm2 log md1' md2' final by blast
  then show ?thesis using m1 m2 bn by blast
qed

theorem same_GKey_later_replaces_index_witness:
  "loadConfig ''cfg''
      \<lparr>entries = entries sample_fs @ [(path_of ''cfg'', Dir),
         (path_of ''cfg/a.json'', File (Descriptor (sample_config (Some ''type'')))),
         (path_of ''cfg/b.json'', File (Descriptor (sample_config None)))], writes = []\<rparr>
      (initial_Generator ''out'')
     = (\<lparr>configMap = [(''a'', sample_config (Some ''type'')), (''b'', sample_config None)],
         targetDir = ''out'', configDir = Some ''cfg''\<rparr>, None)
   \<and> generate sample_collaborators
      \<lparr>configMap = [(''a'', sample_config (Some ''type'')), (''b'', sample_config None)],
        targetDir = ''out'', configDir = Some ''cfg''\<rparr> sample_data sample_tmp
      \<lparr>entries = entries sample_fs @ [(path_of ''cfg'', Dir),
         (path_of ''cfg/a.json'', File (Descriptor (sample_config (Some ''type'')))),
         (path_of ''cfg/b.json'', File (Descriptor (sample_config None)))], writes = []\<rparr>
     = (fst (generate sample_collaborators
      \<lparr>configMap = [(''a'', sample_config (Some ''type'')), (''b'', sample_config None)],
        targetDir = ''out'', configDir = Some ''cfg''\<rparr> sample_data sample_tmp
      \<lparr>entries = entries sample_fs @ [(path_of ''cfg'', Dir),
         (path_of ''cfg/a.json'', File (Descriptor (sample_config (Some ''type'')))),
         (path_of ''cfg/b.json'', File (Descriptor (sample_config None)))], writes = []\<rparr>),
        None)
   \<and> (\<exists>grouped2 analysis2 index2.
        grouping sample_collaborators sample_data (sample_config None) ''items'' = Inr grouped2 \<and>
        analyseAll sample_collaborators grouped2 (sample_config None) = Inr analysis2 \<and>
        format sample_collaborators
          (join nl (category_index sample_collaborators (sample_config None) ''items'' analysis2)
           @ '';'') = Inr index2 \<and>
        readFileSync (category_index_path ''out'' ''items'')
          (fst (generate sample_collaborators
            \<lparr>configMap = [(''a'', sample_config (Some ''type'')), (''b'', sample_config None)],
              targetDir = ''out'', configDir = Some ''cfg''\<rparr> sample_data sample_tmp
            \<lparr>entries = entries sample_fs @ [(path_of ''cfg'', Dir),
               (path_of ''cfg/a.json'', File (Descriptor (sample_config (Some ''type'')))),
               (path_of ''cfg/b.json'', File (Descriptor (sample_config None)))],
              writes = []\<rparr>)) = Inr (Text index2))"
proof -
  let ?fs = "\<lparr>entries = entries sample_fs @ [(path_of ''cfg'', Dir),
         (path_of ''cfg/a.json'', File (Descriptor (sample_config (Some ''type'')))),
         (path_of ''cfg/b.json'', File (Descriptor (sample_config None)))], writes = []\<rparr>"
  let ?g = "\<lparr>configMap = [(''a'', sample_config (Some ''type'')), (''b'', sample_config None)],
        targetDir = ''out'', configDir = Some ''cfg''\<rparr>"
  have load: "loadConfig ''cfg'' ?fs (initial_Generator ''out'') = (?g, None)"
    by code_simp
  have listing: "readdirSync ''cfg'' ?fs = Inr [''a.json'', ''b.json'']"
    by code_simp
  have f1: "''a.json'' \<in> set (filter is_json_file [''a.json'', ''b.json''])"
    and f2: "''b.json'' \<in> set (filter is_json_file [''a.json'', ''b.json''])"
    by (simp_all add: is_json_file_def)
  have diff: "''a.json'' \<noteq> ''b.json''" by simp
  have r1: "readFileSync (path_join (path_of ''cfg'') ''a.json'') ?fs
            = Inr (Descriptor (sample_config (Some ''type'')))"
    by code_simp
  have r2: "readFileSync (path_join (path_of ''cfg'') ''b.json'') ?fs
            = Inr (Descriptor (sample_config None))"
    by code_simp
  have k: "GKey (sample_config gk) = Present ''items''" for gk
    by (simp add: sample_config_def)
  have order: "map snd (configMap ?g) = [] @ [sample_config (Some ''type'')] @ [] @ [sample_config None]"
    by simp
  have dirs: "outDir_of (targetDir ?g) ''items'' \<noteq> path_join (path_of (targetDir ?g)) ''GTypes''"
    by code_simp
  have run: "generate sample_collaborators ?g sample_data sample_tmp ?fs
           = (fst (generate sample_collaborators ?g sample_data sample_tmp ?fs), None)"
    by code_simp
  from same_GKey_later_replaces_index
    [OF load listing f1 f2 diff r1 r2 k k sample_enabled sample_enabled order dirs run]
  show ?thesis using load run by auto
qed

end
